theory Spec2Isabelle
  imports Complex_Main "HOL-Library.Word"
begin

unbundle bit_operations_syntax

section \<open>Data model\<close>

text \<open>
  A \<open>Uint8Array\<close> (and the bytes of an \<open>ArrayBuffer\<close>) is a list of 8-bit words.

  JavaScript strings appear in two roles in the encryption classes, and each role has its
  own representation:
  \<^item> text (the \<open>data\<close> to encrypt, passwords, the base64 fields of an envelope, messages)
    is a \<open>string\<close> holding the UTF-8 bytes of the text, which are the bytes that
    \<open>TextEncoder.encode\<close> hands out. A \<open>string\<close> stands for a text when its bytes are
    well-formed UTF-8 (\<open>utf8_wellformed\<close> below); the encoder produces no other bytes, since it
    writes U+FFFD for an unpaired surrogate;
  \<^item> a "binary string", built with \<open>String.fromCharCode\<close> for \<open>btoa\<close> and returned by
    \<open>atob\<close>, is the list of its UTF-16 code units (\<open>nat list\<close>).
\<close>

type_synonym byte = "8 word"
type_synonym bytes = "byte list"
type_synonym binary = "nat list"

text \<open>Every \<open>throw new Error(...)\<close> of the four encryption classes, and the exceptions of
  the platform calls they make, as one datatype.\<close>

datatype error =
    CryptoAPINotAvailable        \<comment> \<open>'Crypto API not available for secure key generation'\<close>
  | InvalidKeyLength             \<comment> \<open>'ChaCha20 requires a 256-bit (32-byte) key';
                                     'Invalid key length: expected ... bytes, got ...'\<close>
  | NoEncryptionKey              \<comment> \<open>'No encryption key available' / 'No encryption key provided'\<close>
  | NoDecryptionKey              \<comment> \<open>'No decryption key available' / 'No decryption key provided'\<close>
  | SecureRandomNotAvailable     \<comment> \<open>'Secure random number generation not available'\<close>
  | AuthenticationFailed         \<comment> \<open>'Authentication failed: Data may have been tampered with'\<close>
  | WebCryptoNotAvailable        \<comment> \<open>'WebCrypto API not available'\<close>
  | DecryptionFailed             \<comment> \<open>'Decryption failed: Invalid key or corrupted data'\<close>
  | NoPublicKey                  \<comment> \<open>'No public key available for encryption'\<close>
  | NoPrivateKey                 \<comment> \<open>'No private key available for decryption'\<close>
  | PlaintextTooLarge            \<comment> \<open>'Data too large for RSA encryption. Max size: ...'\<close>
  | RSAEncryptionFailed          \<comment> \<open>'RSA encryption failed: ...'\<close>
  | RSADecryptionFailed          \<comment> \<open>'RSA decryption failed: ...'\<close>
  | InvalidCharacterError        \<comment> \<open>DOMException of \<open>btoa\<close> and \<open>atob\<close>\<close>
  | OperationError               \<comment> \<open>a rejected \<open>crypto.subtle\<close> promise that the caller does not catch\<close>
  | ReferenceError               \<comment> \<open>use of the global \<open>crypto\<close> where it is not defined\<close>
  | TypeError                    \<comment> \<open>call of a method that the receiver lacks\<close>
  | QuotaExceededError           \<comment> \<open>\<open>crypto.getRandomValues\<close> on more than 65536 bytes\<close>

section \<open>The platform's text and base64 codecs\<close>

text \<open>\<open>new TextEncoder().encode(s)\<close> on the UTF-8 representation of text: the encoder hands
  out the bytes of the text.\<close>

definition TextEncoder_encode :: "string \<Rightarrow> bytes" where
  "TextEncoder_encode s = map (\<lambda>c. of_nat (of_char c)) s"

text \<open>\<open>new TextDecoder().decode(b)\<close> is the host's UTF-8 decoder with its default options
  (\<open>fatal\<close> and \<open>ignoreBOM\<close> both false), written here after the Encoding standard. A lead byte
  asks for continuation bytes in given ranges (\<open>utf8_ranges\<close>; the ranges exclude overlong
  forms, surrogates and code points above U+10FFFF). Where the bytes that follow are in their
  ranges, the sequence is decoded; otherwise the decoder writes U+FFFD for the bytes it has
  consumed and resumes at the byte that did not fit (or stops at the end of the input).
  A leading byte-order mark U+FEFF is dropped from the result. The text that \<open>decode\<close> returns
  is again given by its UTF-8 bytes, so a decoded sequence appears as its own bytes and U+FFFD
  as \<open>EF BF BD\<close>.\<close>

definition utf8_ranges :: "byte \<Rightarrow> (byte \<times> byte) list option" where
  "utf8_ranges b =
     (if b \<le> 0x7F then Some []
      else if 0xC2 \<le> b \<and> b \<le> 0xDF then Some [(0x80, 0xBF)]
      else if b = 0xE0 then Some [(0xA0, 0xBF), (0x80, 0xBF)]
      else if b = 0xED then Some [(0x80, 0x9F), (0x80, 0xBF)]
      else if 0xE1 \<le> b \<and> b \<le> 0xEF then Some [(0x80, 0xBF), (0x80, 0xBF)]
      else if b = 0xF0 then Some [(0x90, 0xBF), (0x80, 0xBF), (0x80, 0xBF)]
      else if b = 0xF4 then Some [(0x80, 0x8F), (0x80, 0xBF), (0x80, 0xBF)]
      else if 0xF1 \<le> b \<and> b \<le> 0xF3 then Some [(0x80, 0xBF), (0x80, 0xBF), (0x80, 0xBF)]
      else None)"

text \<open>How many of the bytes that follow a lead byte are in the ranges it asks for.\<close>

fun matched :: "(byte \<times> byte) list \<Rightarrow> bytes \<Rightarrow> nat" where
  "matched ((lo, hi) # rs) (c # cs) = (if lo \<le> c \<and> c \<le> hi then Suc (matched rs cs) else 0)"
| "matched [] cs = 0"
| "matched rs [] = 0"

definition replacement :: bytes where
  "replacement = [0xEF, 0xBF, 0xBD]"

function utf8_replace :: "bytes \<Rightarrow> bytes" where
  "utf8_replace [] = []"
| "utf8_replace (b # bs) =
     (case utf8_ranges b of
        None \<Rightarrow> replacement @ utf8_replace bs
      | Some rs \<Rightarrow>
          (if matched rs bs = length rs
           then b # take (matched rs bs) bs @ utf8_replace (drop (matched rs bs) bs)
           else replacement @ utf8_replace (drop (matched rs bs) bs)))"
  by pat_completeness auto
termination
  by (relation "measure length") auto

definition has_bom :: "bytes \<Rightarrow> bool" where
  "has_bom b = (take 3 b = [0xEF, 0xBB, 0xBF])"

definition strip_bom :: "bytes \<Rightarrow> bytes" where
  "strip_bom b = (if has_bom b then drop 3 b else b)"

definition TextDecoder_decode :: "bytes \<Rightarrow> string" where
  "TextDecoder_decode b = map (\<lambda>w. char_of (unat w)) (strip_bom (utf8_replace b))"

text \<open>The byte sequences that are well-formed UTF-8, that is, the ones that stand for a
  text: every lead byte is followed by all the continuation bytes it asks for.\<close>

function utf8_wellformed :: "bytes \<Rightarrow> bool" where
  "utf8_wellformed [] = True"
| "utf8_wellformed (b # bs) =
     (case utf8_ranges b of
        None \<Rightarrow> False
      | Some rs \<Rightarrow> matched rs bs = length rs \<and> utf8_wellformed (drop (length rs) bs))"
  by pat_completeness auto
termination
  by (relation "measure length") auto

text \<open>\<open>btoa\<close> and \<open>atob\<close> are functions of the host, not of the repository. They are written
  here after the HTML standard: \<open>btoa\<close> throws on a code unit above 255 and otherwise
  produces RFC 4648 base64 with padding; \<open>atob\<close> is the standard's forgiving-base64 decode
  (strip ASCII whitespace; when the length is a multiple of four drop one or two trailing
  \<open>=\<close>; fail on a length of 1 modulo 4 or on a character outside the alphabet; decode groups
  of six bits and discard the incomplete last bits).\<close>

definition b64chars :: string where
  "b64chars = ''ABCDEFGHIJKLMNOPQRSTUVWXYZabcdefghijklmnopqrstuvwxyz0123456789+/''"

fun b64_sextets :: "nat list \<Rightarrow> nat list" where
  "b64_sextets (a # b # c # rest) =
     [a div 4, (a mod 4) * 16 + b div 16, (b mod 16) * 4 + c div 64, c mod 64] @ b64_sextets rest"
| "b64_sextets [a, b] = [a div 4, (a mod 4) * 16 + b div 16, (b mod 16) * 4]"
| "b64_sextets [a] = [a div 4, (a mod 4) * 16]"
| "b64_sextets [] = []"

definition b64_padding :: "nat \<Rightarrow> nat" where
  "b64_padding n = (3 - n mod 3) mod 3"

definition b64_text :: "binary \<Rightarrow> string" where
  "b64_text s =
     map (\<lambda>i. b64chars ! i) (b64_sextets s) @ replicate (b64_padding (length s)) CHR ''=''"

definition btoa :: "binary \<Rightarrow> error + string" where
  "btoa s = (if list_all (\<lambda>c. c \<le> 255) s then Inr (b64_text s) else Inl InvalidCharacterError)"

definition ascii_whitespace :: "char \<Rightarrow> bool" where
  "ascii_whitespace c = (of_char c \<in> {9, 10, 12, 13, 32 :: nat})"

fun index_of :: "'a \<Rightarrow> 'a list \<Rightarrow> nat option" where
  "index_of x [] = None"
| "index_of x (y # ys) = (if x = y then Some 0 else map_option Suc (index_of x ys))"

definition strip_padding :: "string \<Rightarrow> string" where
  "strip_padding d =
     (if length d mod 4 = 0 then
        (if 2 \<le> length d \<and> drop (length d - 2) d = ''=='' then take (length d - 2) d
         else if 1 \<le> length d \<and> drop (length d - 1) d = ''='' then take (length d - 1) d
         else d)
      else d)"

fun b64_octets :: "nat list \<Rightarrow> nat list" where
  "b64_octets (p # q # r # s # rest) =
     [p * 4 + q div 16, (q mod 16) * 16 + r div 4, (r mod 4) * 64 + s] @ b64_octets rest"
| "b64_octets [p, q, r] = [p * 4 + q div 16, (q mod 16) * 16 + r div 4]"
| "b64_octets [p, q] = [p * 4 + q div 16]"
| "b64_octets [p] = []"
| "b64_octets [] = []"

fun those_indices :: "string \<Rightarrow> nat list option" where
  "those_indices [] = Some []"
| "those_indices (c # cs) =
     (case index_of c b64chars of
        None \<Rightarrow> None
      | Some i \<Rightarrow> (case those_indices cs of None \<Rightarrow> None | Some is \<Rightarrow> Some (i # is)))"

definition atob :: "string \<Rightarrow> error + binary" where
  "atob s =
     (let d = strip_padding (filter (\<lambda>c. \<not> ascii_whitespace c) s) in
      if length d mod 4 = 1 then Inl InvalidCharacterError
      else (case those_indices d of
              None \<Rightarrow> Inl InvalidCharacterError
            | Some is \<Rightarrow> Inr (b64_octets is)))"

section \<open>The base64 helpers of the encryption classes\<close>

text \<open>\<open>arrayBufferToBase64\<close> / \<open>bytesToBase64\<close> (the same body in the AES, RSA, ChaCha20 and
  DES classes): the loop appends \<open>String.fromCharCode(bytes[i])\<close> for every byte, then
  calls \<open>btoa\<close>.\<close>

definition arrayBufferToBase64 :: "bytes \<Rightarrow> error + string" where
  "arrayBufferToBase64 buffer = btoa (map unat buffer)"

text \<open>\<open>base64ToArrayBuffer\<close> / \<open>base64ToBytes\<close>: \<open>atob\<close>, then the loop stores
  \<open>binary.charCodeAt(i)\<close> into a \<open>Uint8Array\<close>, which keeps the value modulo 256.\<close>

definition base64ToArrayBuffer :: "string \<Rightarrow> error + bytes" where
  "base64ToArrayBuffer base64 =
     (case atob base64 of Inl e \<Rightarrow> Inl e | Inr binary \<Rightarrow> Inr (map of_nat binary))"


section \<open>The global \<open>crypto\<close> object\<close>

text \<open>Exceptions are the left summand of a result; \<open>andThen\<close> runs the rest of a function
  body on the value of a call that returned, and passes a thrown error on.\<close>

fun andThen :: "error + 'a \<Rightarrow> ('a \<Rightarrow> error + 'b) \<Rightarrow> error + 'b" where
  "andThen (Inl e) f = Inl e"
| "andThen (Inr x) f = f x"

text \<open>The random source is the supply of the bytes it will hand out; a call of
  \<open>crypto.getRandomValues\<close> on an array of \<open>n\<close> bytes takes the next \<open>n\<close> of them.\<close>

type_synonym rng = "nat \<Rightarrow> byte"

definition getRandomValues :: "rng \<Rightarrow> nat \<Rightarrow> bytes \<times> rng" where
  "getRandomValues r n = (map r [0..<n], \<lambda>i. r (n + i))"

text \<open>\<open>crypto.subtle\<close>: the primitives of the host that the classes call, each with the
  parameters the source passes. A rejected promise is \<open>None\<close>. \<open>'k\<close> is the type \<open>CryptoKey\<close>.
  \<^item> \<open>generateKey_AES len\<close>: \<open>generateKey({name: 'AES-GCM', length: len}, true, ['encrypt', 'decrypt'])\<close>;
  \<^item> \<open>importKey_raw\<close>: \<open>importKey('raw', data, {name: 'AES-GCM'}, false, ['decrypt'])\<close>;
  \<^item> \<open>exportKey_raw\<close>: \<open>exportKey('raw', key)\<close>;
  \<^item> \<open>importKey_PBKDF2\<close>: \<open>importKey('raw', password, 'PBKDF2', false, ['deriveKey'])\<close>;
  \<^item> \<open>deriveKey_PBKDF2 salt iterations hash keyMaterial len\<close>: \<open>deriveKey\<close> with an AES-GCM target of \<open>len\<close> bits;
  \<^item> \<open>encrypt_AES_GCM key iv tagLength data\<close> and \<open>decrypt_AES_GCM\<close>, the tag length in bits;
  \<^item> \<open>encrypt_RSA_OAEP key data\<close> (which draws its OAEP seed from the random source) and
    \<open>decrypt_RSA_OAEP key data\<close>.\<close>

record 'k SubtleCrypto =
  generateKey_AES :: "nat \<Rightarrow> rng \<Rightarrow> 'k option \<times> rng"
  importKey_raw :: "bytes \<Rightarrow> 'k option"
  exportKey_raw :: "'k \<Rightarrow> bytes option"
  importKey_PBKDF2 :: "bytes \<Rightarrow> 'k option"
  deriveKey_PBKDF2 :: "bytes \<Rightarrow> nat \<Rightarrow> string \<Rightarrow> 'k \<Rightarrow> nat \<Rightarrow> 'k option"
  encrypt_AES_GCM :: "'k \<Rightarrow> bytes \<Rightarrow> nat \<Rightarrow> bytes \<Rightarrow> bytes option"
  decrypt_AES_GCM :: "'k \<Rightarrow> bytes \<Rightarrow> nat \<Rightarrow> bytes \<Rightarrow> bytes option"
  encrypt_RSA_OAEP :: "'k \<Rightarrow> bytes \<Rightarrow> rng \<Rightarrow> bytes option \<times> rng"
  decrypt_RSA_OAEP :: "'k \<Rightarrow> bytes \<Rightarrow> bytes option"

text \<open>The global \<open>crypto\<close> is \<open>None\<close> where \<open>typeof crypto === 'undefined'\<close>; otherwise it
  may or may not have \<open>subtle\<close> and \<open>getRandomValues\<close>.\<close>

record 'k Crypto =
  subtle :: "'k SubtleCrypto option"
  hasGetRandomValues :: bool

text \<open>The guard \<open>typeof crypto === 'undefined' || !crypto.subtle\<close> of the AES and RSA
  methods.\<close>

definition requireSubtle :: "'k Crypto option \<Rightarrow> error + 'k SubtleCrypto" where
  "requireSubtle crypto =
     (case crypto of
        None \<Rightarrow> Inl WebCryptoNotAvailable
      | Some c \<Rightarrow> (case subtle c of None \<Rightarrow> Inl WebCryptoNotAvailable | Some S \<Rightarrow> Inr S))"


definition crypto_getRandomValues :: "'k Crypto option \<Rightarrow> rng \<Rightarrow> nat \<Rightarrow> error + (bytes \<times> rng)" where
  "crypto_getRandomValues crypto r n =
     (case crypto of
        None \<Rightarrow> Inl ReferenceError
      | Some c \<Rightarrow>
          if \<not> hasGetRandomValues c then Inl TypeError
          else if n > 65536 then Inl QuotaExceededError
          else Inr (getRandomValues r n))"

text \<open>\<open>a || b\<close> on two optional objects (a \<open>Uint8Array\<close> or a \<open>CryptoKey\<close> is truthy whatever
  it holds).\<close>

definition orElse :: "'a option \<Rightarrow> 'a option \<Rightarrow> 'a option" where
  "orElse a b = (case a of Some x \<Rightarrow> Some x | None \<Rightarrow> b)"

text \<open>\<open>arr[i % arr.length]\<close> as an operand of \<open>^\<close>: on an empty array the index is \<open>NaN\<close>, the
  element \<open>undefined\<close>, and \<open>^\<close> reads it as 0.\<close>

definition at_mod :: "bytes \<Rightarrow> nat \<Rightarrow> byte" where
  "at_mod arr i = (if arr = [] then 0 else arr ! (i mod length arr))"

section \<open>ChaCha20Encryption\<close>

record ChaCha20Config =
  keySize_chacha :: nat
  nonceSize :: nat
  variant :: string
  rounds :: nat

text \<open>The \<open>performance\<close> member of \<open>ChaCha20EncryptionResult\<close> (a duration read from the
  clock and a throughput computed from it) is left out; what remains has the fields of
  \<open>ChaCha20DecryptionInput\<close>, and \<open>decrypt\<close> is called on it as in \<open>benchmark\<close>.\<close>

record ChaCha20EncryptionResult =
  ciphertext_chacha :: string
  nonce_chacha :: string
  tag_chacha :: string
  algorithm_chacha :: string

type_synonym ChaCha20DecryptionInput = ChaCha20EncryptionResult

record ChaCha20Encryption =
  config_chacha :: ChaCha20Config
  key_chacha :: "bytes option"

text \<open>The constructor spreads the caller's partial configuration over the defaults; here
  the caller passes the defaults with the members it overrides updated.\<close>

definition ChaCha20_defaults :: ChaCha20Config where
  "ChaCha20_defaults = \<lparr>keySize_chacha = 256, nonceSize = 12, variant = ''ChaCha20'', rounds = 20\<rparr>"

definition ChaCha20_new :: "ChaCha20Config \<Rightarrow> ChaCha20Encryption" where
  "ChaCha20_new config = \<lparr>config_chacha = config, key_chacha = None\<rparr>"

definition ChaCha20_generateKey ::
  "ChaCha20Encryption \<Rightarrow> 'k Crypto option \<Rightarrow> rng \<Rightarrow> error + ((bytes \<times> ChaCha20Encryption) \<times> rng)" where
  "ChaCha20_generateKey this crypto r =
     (case crypto of
        None \<Rightarrow> Inl CryptoAPINotAvailable
      | Some c \<Rightarrow>
          if \<not> hasGetRandomValues c then Inl CryptoAPINotAvailable
          else (let (key, r') = getRandomValues r 32
                in Inr ((key, this\<lparr>key_chacha := Some key\<rparr>), r')))"

definition ChaCha20_setKey :: "ChaCha20Encryption \<Rightarrow> bytes \<Rightarrow> error + ChaCha20Encryption" where
  "ChaCha20_setKey this key =
     (if length key \<noteq> 32 then Inl InvalidKeyLength else Inr (this\<lparr>key_chacha := Some key\<rparr>))"

text \<open>The keystream loop of \<open>simulateChaCha20Encryption\<close>:
  \<open>ciphertext[i] = data[i] ^ ((key[i % key.length] ^ nonce[i % nonce.length] ^ Math.floor(i / 64)) & 0xFF)\<close>.
  The two array bytes are below 256, so the mask keeps the low eight bits of the block
  counter.\<close>

definition keystreamByte :: "bytes \<Rightarrow> bytes \<Rightarrow> nat \<Rightarrow> byte" where
  "keystreamByte key nonce i = at_mod key i XOR at_mod nonce i XOR of_nat (i div 64)"

definition keystream_loop :: "bytes \<Rightarrow> bytes \<Rightarrow> bytes \<Rightarrow> bytes" where
  "keystream_loop data key nonce = map (\<lambda>i. data ! i XOR keystreamByte key nonce i) [0..<length data]"

text \<open>\<open>simulateChaCha20Encryption\<close>: the loop, then a tag of 16 bytes filled by an unguarded
  \<open>crypto.getRandomValues\<close>.\<close>

definition simulateChaCha20Encryption ::
  "'k Crypto option \<Rightarrow> rng \<Rightarrow> bytes \<Rightarrow> bytes \<Rightarrow> bytes \<Rightarrow> error + ((bytes \<times> bytes) \<times> rng)" where
  "simulateChaCha20Encryption crypto r data key nonce =
     (let ciphertext = keystream_loop data key nonce
      in andThen (crypto_getRandomValues crypto r 16) (\<lambda>(tag, r'). Inr ((ciphertext, tag), r')))"

definition simulateChaCha20Decryption ::
  "'k Crypto option \<Rightarrow> rng \<Rightarrow> bytes \<Rightarrow> bytes \<Rightarrow> bytes \<Rightarrow> error + (bytes \<times> rng)" where
  "simulateChaCha20Decryption crypto r ciphertext key nonce =
     andThen (simulateChaCha20Encryption crypto r ciphertext key nonce)
       (\<lambda>(result, r'). Inr (fst result, r'))"

definition verifyTag :: "bytes \<Rightarrow> bytes \<Rightarrow> bytes \<Rightarrow> bytes \<Rightarrow> bool" where
  "verifyTag ciphertext nonce tag key = (length tag = 16)"

definition ChaCha20_encrypt ::
  "ChaCha20Encryption \<Rightarrow> 'k Crypto option \<Rightarrow> rng \<Rightarrow> string \<Rightarrow> bytes option
     \<Rightarrow> error + (ChaCha20EncryptionResult \<times> rng)" where
  "ChaCha20_encrypt this crypto r data key =
     (case orElse key (key_chacha this) of
        None \<Rightarrow> Inl NoEncryptionKey
      | Some encryptionKey \<Rightarrow>
          (case crypto of
             None \<Rightarrow> Inl SecureRandomNotAvailable
           | Some c \<Rightarrow>
               if \<not> hasGetRandomValues c then Inl SecureRandomNotAvailable
               else if nonceSize (config_chacha this) > 65536 then Inl QuotaExceededError
               else
                 (let (nonce, r1) = getRandomValues r (nonceSize (config_chacha this));
                      dataBytes = TextEncoder_encode data
                  in andThen (simulateChaCha20Encryption crypto r1 dataBytes encryptionKey nonce)
                       (\<lambda>((ciphertext, tag), r2).
                     andThen (arrayBufferToBase64 ciphertext) (\<lambda>ciphertext64.
                     andThen (arrayBufferToBase64 nonce) (\<lambda>nonce64.
                     andThen (arrayBufferToBase64 tag) (\<lambda>tag64.
                       Inr (\<lparr>ciphertext_chacha = ciphertext64, nonce_chacha = nonce64,
                             tag_chacha = tag64,
                             algorithm_chacha = variant (config_chacha this) @ ''-Poly1305''\<rparr>,
                            r2))))))))"

definition ChaCha20_decrypt ::
  "ChaCha20Encryption \<Rightarrow> 'k Crypto option \<Rightarrow> rng \<Rightarrow> ChaCha20DecryptionInput \<Rightarrow> bytes option
     \<Rightarrow> error + (string \<times> rng)" where
  "ChaCha20_decrypt this crypto r input key =
     (case orElse key (key_chacha this) of
        None \<Rightarrow> Inl NoDecryptionKey
      | Some decryptionKey \<Rightarrow>
          andThen (base64ToArrayBuffer (ciphertext_chacha input)) (\<lambda>ciphertext.
          andThen (base64ToArrayBuffer (nonce_chacha input)) (\<lambda>nonce.
          andThen (base64ToArrayBuffer (tag_chacha input)) (\<lambda>tag.
            if \<not> verifyTag ciphertext nonce tag decryptionKey then Inl AuthenticationFailed
            else andThen (simulateChaCha20Decryption crypto r ciphertext decryptionKey nonce)
                   (\<lambda>(decryptedBytes, r'). Inr (TextDecoder_decode decryptedBytes, r'))))))"

subsection \<open>\<open>encryptStream\<close>\<close>

text \<open>\<open>encryptStream(dataStream, key)\<close> chooses the key, draws the base nonce and returns
  \<open>new ReadableStream({start, transform})\<close>. It never reads \<open>dataStream\<close>. Of the two members
  of the object, a \<open>ReadableStream\<close> calls \<open>start\<close>, which enqueues the base nonce; it has no
  use for a member called \<open>transform\<close> and never calls it. So the stream that is returned
  holds the base nonce and nothing after it (and is never closed).

  The result is the queue of the returned stream together with the closure of the object:
  the key, the base nonce and \<open>chunkCounter\<close> (a JavaScript number, exact on the integers below
  \<open>2 ^ 53\<close>). \<open>dataStream\<close> is the list of the chunks it would deliver.\<close>

record StreamState =
  encryptionKey_stream :: bytes
  baseNonce :: bytes
  chunkCounter :: nat

record EncryptedStream =
  queue :: "bytes list"
  source :: StreamState

definition ChaCha20_encryptStream ::
  "ChaCha20Encryption \<Rightarrow> 'k Crypto option \<Rightarrow> rng \<Rightarrow> bytes list \<Rightarrow> bytes option
     \<Rightarrow> error + (EncryptedStream \<times> rng)" where
  "ChaCha20_encryptStream this crypto r dataStream key =
     (case orElse key (key_chacha this) of
        None \<Rightarrow> Inl NoEncryptionKey
      | Some k \<Rightarrow>
          andThen (crypto_getRandomValues crypto r (nonceSize (config_chacha this)))
            (\<lambda>(nonce, r').
               Inr (\<lparr>queue = [nonce],
                     source = \<lparr>encryptionKey_stream = k, baseNonce = nonce, chunkCounter = 0\<rparr>\<rparr>,
                    r')))"

text \<open>\<open>new DataView(counterBytes.buffer).setUint32(0, chunkCounter, true)\<close>: the counter
  modulo \<open>2 ^ 32\<close>, least significant byte first.\<close>

definition counterBytes :: "nat \<Rightarrow> bytes" where
  "counterBytes n =
     (let w = (of_nat n :: 32 word)
      in [ucast w, ucast (drop_bit 8 w), ucast (drop_bit 16 w), ucast (drop_bit 24 w)])"

text \<open>The copy of the base nonce after
  \<open>for (let i = 0; i < 4 && i < chunkNonce.length; i++) chunkNonce[i] ^= counterBytes[i]\<close>.\<close>

definition chunkNonce :: "bytes \<Rightarrow> nat \<Rightarrow> bytes" where
  "chunkNonce base n =
     map (\<lambda>i. if i < 4 then base ! i XOR counterBytes n ! i else base ! i) [0..<length base]"

text \<open>The member \<open>transform\<close>, were it called on the object it belongs to: it computes the
  nonce of the chunk, increments \<open>chunkCounter\<close>, and then calls
  \<open>this.simulateChaCha20Encryption\<close>. Inside the member \<open>this\<close> is the object literal, which
  has no such method, so the call throws a \<open>TypeError\<close>; the incremented counter stays. The
  result is what the call returns or throws, and the closure after it.\<close>

definition transform :: "StreamState \<Rightarrow> bytes \<Rightarrow> (error + bytes) \<times> StreamState" where
  "transform st chunk =
     (let nonce = chunkNonce (baseNonce st) (chunkCounter st);
          st' = st\<lparr>chunkCounter := chunkCounter st + 1\<rparr>
      in (Inl TypeError, st'))"

section \<open>AESEncryption\<close>

record AESConfig =
  keySize_aes :: nat
  mode_aes :: string
  ivLength :: nat
  tagLength :: nat
  keyDerivationIterations :: nat

text \<open>\<open>EncryptionResult\<close> and \<open>DecryptionInput\<close> have the same members; \<open>rotateKey\<close> passes
  the former where the latter is expected. An optional member that is absent is \<open>None\<close>.\<close>

record EncryptionResult =
  ciphertext_aes :: string
  iv_aes :: string
  tag_aes :: "string option"
  salt_aes :: "string option"

type_synonym DecryptionInput = EncryptionResult

record 'k AESEncryption =
  config_aes :: AESConfig
  masterKey :: "'k option"

definition AES_defaults :: AESConfig where
  "AES_defaults =
     \<lparr>keySize_aes = 256, mode_aes = ''GCM'', ivLength = 12, tagLength = 16,
      keyDerivationIterations = 100000\<rparr>"

definition AES_new :: "AESConfig \<Rightarrow> 'k AESEncryption" where
  "AES_new config = \<lparr>config_aes = config, masterKey = None\<rparr>"

text \<open>\<open>ArrayBuffer.prototype.slice(begin, end)\<close>: a negative index counts from the end, and
  both are clamped to the buffer. (\<open>slice\<close> is a constant of the word library.)\<close>

definition relative_index :: "nat \<Rightarrow> int \<Rightarrow> nat" where
  "relative_index len i = (if i < 0 then nat (max (int len + i) 0) else min (nat i) len)"

definition slice_buffer :: "'a list \<Rightarrow> int \<Rightarrow> int \<Rightarrow> 'a list" where
  "slice_buffer xs b e =
     (let first = relative_index (length xs) b;
          final = relative_index (length xs) e
      in take (final - first) (drop first xs))"

text \<open>A string used as a condition: absent and empty strings are falsy.\<close>

definition truthy :: "string option \<Rightarrow> bool" where
  "truthy s = (case s of None \<Rightarrow> False | Some t \<Rightarrow> t \<noteq> [])"

definition AES_generateKey ::
  "'k AESEncryption \<Rightarrow> 'k Crypto option \<Rightarrow> rng \<Rightarrow> error + ('k \<times> rng)" where
  "AES_generateKey this crypto r =
     andThen (requireSubtle crypto) (\<lambda>S.
       (case generateKey_AES S (keySize_aes (config_aes this)) r of
          (None, r') \<Rightarrow> Inl OperationError
        | (Some key, r') \<Rightarrow> Inr (key, r')))"

definition deriveKeyFromPassword ::
  "'k AESEncryption \<Rightarrow> 'k Crypto option \<Rightarrow> rng \<Rightarrow> string \<Rightarrow> bytes option
     \<Rightarrow> error + (('k \<times> bytes) \<times> rng)" where
  "deriveKeyFromPassword this crypto r password salt =
     andThen (requireSubtle crypto) (\<lambda>S.
     andThen (case salt of
                None \<Rightarrow> crypto_getRandomValues crypto r 16
              | Some s \<Rightarrow> Inr (s, r)) (\<lambda>(salt', r').
       (case importKey_PBKDF2 S (TextEncoder_encode password) of
          None \<Rightarrow> Inl OperationError
        | Some keyMaterial \<Rightarrow>
            (case deriveKey_PBKDF2 S salt' (keyDerivationIterations (config_aes this)) ''SHA-256''
                    keyMaterial (keySize_aes (config_aes this)) of
               None \<Rightarrow> Inl OperationError
             | Some key \<Rightarrow> Inr ((key, salt'), r')))))"

definition AES_encrypt ::
  "'k AESEncryption \<Rightarrow> 'k Crypto option \<Rightarrow> rng \<Rightarrow> string \<Rightarrow> 'k option \<Rightarrow> string option
     \<Rightarrow> error + (EncryptionResult \<times> rng)" where
  "AES_encrypt this crypto r data key password =
     andThen (requireSubtle crypto) (\<lambda>S.
     andThen (case key of
                Some k \<Rightarrow> Inr ((k, None), r)
              | None \<Rightarrow>
                  if truthy password then
                    andThen (deriveKeyFromPassword this crypto r (the password) None)
                      (\<lambda>((k, salt), r'). Inr ((k, Some salt), r'))
                  else (case masterKey this of
                          Some k \<Rightarrow> Inr ((k, None), r)
                        | None \<Rightarrow> Inl NoEncryptionKey)) (\<lambda>((encryptionKey, salt), r1).
     andThen (crypto_getRandomValues crypto r1 (ivLength (config_aes this))) (\<lambda>(iv, r2).
       (case encrypt_AES_GCM S encryptionKey iv (tagLength (config_aes this) * 8)
               (TextEncoder_encode data) of
          None \<Rightarrow> Inl OperationError
        | Some encrypted \<Rightarrow>
            (let ciphertext = slice_buffer encrypted 0 (- int (tagLength (config_aes this)));
                 tag = slice_buffer encrypted (- int (tagLength (config_aes this))) (int (length encrypted))
             in andThen (arrayBufferToBase64 ciphertext) (\<lambda>ciphertext64.
                andThen (arrayBufferToBase64 iv) (\<lambda>iv64.
                andThen (arrayBufferToBase64 tag) (\<lambda>tag64.
                andThen (case salt of
                           None \<Rightarrow> Inr None
                         | Some s \<Rightarrow> andThen (arrayBufferToBase64 s) (\<lambda>s64. Inr (Some s64)))
                  (\<lambda>salt64.
                  Inr (\<lparr>ciphertext_aes = ciphertext64, iv_aes = iv64, tag_aes = Some tag64,
                        salt_aes = salt64\<rparr>, r2))))))))))"

definition AES_decrypt ::
  "'k AESEncryption \<Rightarrow> 'k Crypto option \<Rightarrow> rng \<Rightarrow> DecryptionInput \<Rightarrow> 'k option \<Rightarrow> string option
     \<Rightarrow> error + (string \<times> rng)" where
  "AES_decrypt this crypto r input key password =
     andThen (requireSubtle crypto) (\<lambda>S.
     andThen (case key of
                Some k \<Rightarrow> Inr (k, r)
              | None \<Rightarrow>
                  if truthy password \<and> truthy (salt_aes input) then
                    andThen (base64ToArrayBuffer (the (salt_aes input))) (\<lambda>salt.
                    andThen (deriveKeyFromPassword this crypto r (the password) (Some salt))
                      (\<lambda>((k, salt'), r'). Inr (k, r')))
                  else (case masterKey this of
                          Some k \<Rightarrow> Inr (k, r)
                        | None \<Rightarrow> Inl NoDecryptionKey)) (\<lambda>(decryptionKey, r1).
     andThen (base64ToArrayBuffer (ciphertext_aes input)) (\<lambda>ciphertext.
     andThen (base64ToArrayBuffer (iv_aes input)) (\<lambda>iv.
     andThen (if truthy (tag_aes input) then base64ToArrayBuffer (the (tag_aes input)) else Inr [])
       (\<lambda>tag.
       (let encryptedData = ciphertext @ tag
        in (case decrypt_AES_GCM S decryptionKey iv (tagLength (config_aes this) * 8) encryptedData of
              None \<Rightarrow> Inl DecryptionFailed
            | Some decrypted \<Rightarrow> Inr (TextDecoder_decode decrypted, r1))))))))"

text \<open>The body of the loop of \<open>rotateKey\<close> and the loop itself; \<open>reencryptedData\<close> is the
  array the loop pushes to.\<close>

fun rotate_loop ::
  "'k AESEncryption \<Rightarrow> 'k Crypto option \<Rightarrow> 'k \<Rightarrow> 'k \<Rightarrow> EncryptionResult list
     \<Rightarrow> EncryptionResult list \<Rightarrow> rng \<Rightarrow> error + (EncryptionResult list \<times> rng)" where
  "rotate_loop this crypto oldKey newKey [] reencryptedData r = Inr (reencryptedData, r)"
| "rotate_loop this crypto oldKey newKey (item # items) reencryptedData r =
     (case AES_decrypt this crypto r item (Some oldKey) None of
        Inl e \<Rightarrow> Inl e
      | Inr (decrypted, r1) \<Rightarrow>
          (case AES_encrypt this crypto r1 decrypted (Some newKey) None of
             Inl e \<Rightarrow> Inl e
           | Inr (encrypted, r2) \<Rightarrow>
               rotate_loop this crypto oldKey newKey items (reencryptedData @ [encrypted]) r2))"

definition rotateKey ::
  "'k AESEncryption \<Rightarrow> 'k Crypto option \<Rightarrow> rng \<Rightarrow> 'k \<Rightarrow> EncryptionResult list
     \<Rightarrow> error + (('k \<times> EncryptionResult list) \<times> rng)" where
  "rotateKey this crypto r oldKey data =
     andThen (AES_generateKey this crypto r) (\<lambda>(newKey, r1).
     andThen (rotate_loop this crypto oldKey newKey data [] r1) (\<lambda>(reencryptedData, r2).
       Inr ((newKey, reencryptedData), r2)))"

section \<open>RSAEncryption\<close>

record RSAConfig =
  keySize_rsa :: nat
  hashAlgorithm :: string
  paddingScheme :: string
  mgf :: string

record 'k RSAKeyPair =
  publicKey :: 'k
  privateKey :: 'k

record RSAEncryptionResult =
  ciphertext_rsa :: string
  keySize_result :: nat
  algorithm_rsa :: string

record 'k RSAEncryption =
  config_rsa :: RSAConfig
  keyPair :: "'k RSAKeyPair option"

definition RSA_defaults :: RSAConfig where
  "RSA_defaults =
     \<lparr>keySize_rsa = 4096, hashAlgorithm = ''SHA-256'', paddingScheme = ''OAEP'', mgf = ''MGF1''\<rparr>"

definition RSA_new :: "RSAConfig \<Rightarrow> 'k RSAEncryption" where
  "RSA_new config = \<lparr>config_rsa = config, keyPair = None\<rparr>"

definition getHashSizeBytes :: "'k RSAEncryption \<Rightarrow> nat" where
  "getHashSizeBytes this =
     (if hashAlgorithm (config_rsa this) = ''SHA-256'' then 32
      else if hashAlgorithm (config_rsa this) = ''SHA-384'' then 48
      else if hashAlgorithm (config_rsa this) = ''SHA-512'' then 64
      else 32)"

text \<open>\<open>keySize / 8\<close> is a division of numbers, not of integers, so the bound is a rational.\<close>

definition getMaxDataSize :: "'k RSAEncryption \<Rightarrow> rat" where
  "getMaxDataSize this =
     (let keySizeBytes = of_nat (keySize_rsa (config_rsa this)) / 8;
          hashSizeBytes = of_nat (getHashSizeBytes this)
      in keySizeBytes - 2 * hashSizeBytes - 2)"

text \<open>The decimal digits of a number, as a template literal prints it.\<close>

fun show_nat :: "nat \<Rightarrow> string" where
  "show_nat n =
     (if n < 10 then [char_of (48 + n)] else show_nat (n div 10) @ [char_of (48 + n mod 10)])"

definition RSA_encrypt ::
  "'k RSAEncryption \<Rightarrow> 'k Crypto option \<Rightarrow> rng \<Rightarrow> string \<Rightarrow> 'k option
     \<Rightarrow> error + (RSAEncryptionResult \<times> rng)" where
  "RSA_encrypt this crypto r data publicKey' =
     andThen (requireSubtle crypto) (\<lambda>S.
       (case orElse publicKey' (map_option publicKey (keyPair this)) of
          None \<Rightarrow> Inl NoPublicKey
        | Some encryptionKey \<Rightarrow>
            (let maxDataSize = getMaxDataSize this;
                 dataBytes = TextEncoder_encode data
             in if of_nat (length dataBytes) > maxDataSize then Inl PlaintextTooLarge
                else (case encrypt_RSA_OAEP S encryptionKey dataBytes r of
                        (None, r') \<Rightarrow> Inl RSAEncryptionFailed
                      | (Some encrypted, r') \<Rightarrow>
                          (case arrayBufferToBase64 encrypted of
                             Inl e \<Rightarrow> Inl RSAEncryptionFailed
                           | Inr ciphertext64 \<Rightarrow>
                               Inr (\<lparr>ciphertext_rsa = ciphertext64,
                                     keySize_result = keySize_rsa (config_rsa this),
                                     algorithm_rsa = ''RSA-'' @ show_nat (keySize_rsa (config_rsa this))
                                        @ ''-OAEP-'' @ hashAlgorithm (config_rsa this)\<rparr>, r'))))))"


record HybridResult =
  encryptedData :: string
  encryptedKey :: RSAEncryptionResult
  iv_hybrid :: string



record ValidationResult =
  isValid :: bool
  issues :: "string list"

definition startsWith :: "string \<Rightarrow> string \<Rightarrow> bool" where
  "startsWith s p = (take (length p) s = p)"

definition RSA_validateConfig :: "'k RSAEncryption \<Rightarrow> ValidationResult" where
  "RSA_validateConfig this =
     (let issues1 = (if keySize_rsa (config_rsa this) < 2048
                     then [''Key size too small: minimum 2048 bits recommended''] else []);
          issues2 = issues1 @ (if keySize_rsa (config_rsa this) < 3072
                     then [''Consider using 3072+ bit keys for long-term security''] else []);
          issues3 = issues2 @ [''WARNING: RSA is vulnerable to quantum attacks. Consider post-quantum alternatives for long-term data protection.'']
      in \<lparr>isValid = (length (filter (\<lambda>i. \<not> startsWith i ''WARNING'') issues3) = 0),
          issues = issues3\<rparr>)"


section \<open>DESEncryption (legacy)\<close>

record DESConfig =
  algorithm_des :: string
  mode_des :: string
  padding :: string
  keyLength :: nat

record DESEncryptionResult =
  ciphertext_des :: string
  iv_des :: "string option"
  algorithm_result :: string
  deprecated :: bool
  migrationWarning :: string

record DESEncryption =
  config_des :: DESConfig

definition DES_defaults :: DESConfig where
  "DES_defaults =
     \<lparr>algorithm_des = ''3DES'', mode_des = ''CBC'', padding = ''PKCS7'', keyLength = 24\<rparr>"

definition DES_new :: "DESConfig \<Rightarrow> DESEncryption" where
  "DES_new config = \<lparr>config_des = config\<rparr>"

text \<open>The two sources of random bytes that \<open>DESEncryption.encrypt\<close> reads: the secure one
  and, where \<open>crypto.getRandomValues\<close> is missing, \<open>Math.floor(Math.random() * 256)\<close>.\<close>

record Randomness =
  secure :: rng
  mathRandom :: rng

definition applyPadding :: "DESEncryption \<Rightarrow> bytes \<Rightarrow> bytes" where
  "applyPadding this data =
     (if padding (config_des this) \<noteq> ''PKCS7'' then data
      else (let blockSize = 8;
                paddingLength = blockSize - (length data mod blockSize)
            in data @ replicate paddingLength (of_nat paddingLength)))"

definition simulateDESEncryption :: "bytes \<Rightarrow> bytes \<Rightarrow> bytes option \<Rightarrow> bytes" where
  "simulateDESEncryption data key iv =
     map (\<lambda>i. data ! i XOR at_mod key i XOR (case iv of None \<Rightarrow> 0 | Some v \<Rightarrow> at_mod v i))
       [0..<length data]"

definition DES_encrypt ::
  "DESEncryption \<Rightarrow> 'k Crypto option \<Rightarrow> Randomness \<Rightarrow> string \<Rightarrow> bytes
     \<Rightarrow> error + (DESEncryptionResult \<times> Randomness)" where
  "DES_encrypt this crypto rnd data key =
     (if length key \<noteq> keyLength (config_des this) then Inl InvalidKeyLength
      else
        (let (iv, rnd') =
               (if mode_des (config_des this) = ''CBC'' then
                  (if (case crypto of None \<Rightarrow> False | Some c \<Rightarrow> hasGetRandomValues c)
                   then (let (v, r') = getRandomValues (secure rnd) 8
                         in (Some v, rnd\<lparr>secure := r'\<rparr>))
                   else (let (v, r') = getRandomValues (mathRandom rnd) 8
                         in (Some v, rnd\<lparr>mathRandom := r'\<rparr>)))
                else (None, rnd));
             dataBytes = TextEncoder_encode data;
             paddedData = applyPadding this dataBytes;
             ciphertext = simulateDESEncryption paddedData key iv
         in andThen (arrayBufferToBase64 ciphertext) (\<lambda>ciphertext64.
            andThen (case iv of
                       None \<Rightarrow> Inr None
                     | Some v \<Rightarrow> andThen (arrayBufferToBase64 v) (\<lambda>v64. Inr (Some v64))) (\<lambda>iv64.
              Inr (\<lparr>ciphertext_des = ciphertext64, iv_des = iv64,
                    algorithm_result = algorithm_des (config_des this) @ ''-'' @ mode_des (config_des this),
                    deprecated = True,
                    migrationWarning = ''This data was encrypted with deprecated DES. Migrate to AES-256 immediately.''\<rparr>,
                   rnd')))))"

record MigrationPlan =
  currentSecurity :: string
  recommendedAlgorithm :: string
  migrationSteps :: "string list"
  urgency :: string
  risks :: "string list"

definition generateMigrationPlan :: "DESEncryption \<Rightarrow> MigrationPlan" where
  "generateMigrationPlan this =
     \<lparr>currentSecurity = ''CRITICALLY INSECURE'',
      recommendedAlgorithm = ''AES-256-GCM'',
      migrationSteps =
        [''1. Audit all systems using DES encryption'',
         ''2. Implement AES-256-GCM encryption alongside DES'',
         ''3. Decrypt existing data with DES keys'',
         ''4. Re-encrypt all data with AES-256 keys'',
         ''5. Update all applications to use AES'',
         ''6. Securely destroy all DES keys'',
         ''7. Remove DES code from all systems''],
      urgency = ''IMMEDIATE - This should be treated as a security incident'',
      risks =
        [''DES 56-bit keys can be broken in hours'',
         ''3DES is vulnerable to Sweet32 attacks'',
         ''Performance degradation compared to AES'',
         ''Compliance violations (PCI DSS, FIPS)'',
         ''Regulatory penalties possible'',
         ''Data breach liability'']\<rparr>"


section \<open>A stand-in host for concrete runs\<close>

text \<open>The witnesses below run the classes on concrete inputs, which needs a concrete random
  source and concrete primitives behind \<open>crypto.subtle\<close>. The stand-in keys are byte lists, its
  cipher is the keystream loop followed by a checksum as tag, and its public and private keys
  coincide. It makes no claim to security; the theorems about the classes hold for every
  host.\<close>

definition rng0 :: rng where
  "rng0 i = of_nat (7 * i + 1)"

definition standin_tag :: "bytes \<Rightarrow> bytes \<Rightarrow> bytes \<Rightarrow> byte" where
  "standin_tag key iv data = foldr (+) (key @ iv @ data) 0"

definition standin_subtle :: "bytes SubtleCrypto" where
  "standin_subtle =
     \<lparr>generateKey_AES = (\<lambda>len r. let (k, r') = getRandomValues r (len div 8) in (Some k, r')),
      importKey_raw = (\<lambda>b. Some b),
      exportKey_raw = (\<lambda>k. Some k),
      importKey_PBKDF2 = (\<lambda>b. Some b),
      deriveKey_PBKDF2 = (\<lambda>salt iterations hash keyMaterial len.
         Some (map (\<lambda>i. at_mod keyMaterial i XOR at_mod salt i) [0..<len div 8])),
      encrypt_AES_GCM = (\<lambda>key iv t data.
         Some (keystream_loop data key iv @ replicate (t div 8) (standin_tag key iv data))),
      decrypt_AES_GCM = (\<lambda>key iv t e.
         let n = length e - t div 8;
             data = keystream_loop (take n e) key iv
         in if t div 8 \<le> length e \<and> drop n e = replicate (t div 8) (standin_tag key iv data)
            then Some data else None),
      encrypt_RSA_OAEP = (\<lambda>key data r.
         let (seed, r') = getRandomValues r 1 in (Some (seed @ keystream_loop data key seed), r')),
      decrypt_RSA_OAEP = (\<lambda>key e.
         case e of [] \<Rightarrow> None | s # c \<Rightarrow> Some (keystream_loop c key [s]))\<rparr>"

definition standin_host :: "bytes Crypto" where
  "standin_host = \<lparr>subtle = Some standin_subtle, hasGetRandomValues = True\<rparr>"

definition standin_crypto :: "bytes Crypto option" where
  "standin_crypto = Some standin_host"

definition key16 :: bytes where
  "key16 = replicate 16 1"

definition key32 :: bytes where
  "key32 = map of_nat [0..<32]"

definition key24 :: bytes where
  "key24 = replicate 24 5"

definition rnd0 :: Randomness where
  "rnd0 = \<lparr>secure = rng0, mathRandom = rng0\<rparr>"

definition rsa1024 :: "bytes RSAEncryption" where
  "rsa1024 = RSA_new (RSA_defaults\<lparr>keySize_rsa := 1024\<rparr>)"

definition rsa4096 :: "bytes RSAEncryption" where
  "rsa4096 = RSA_new RSA_defaults"

definition aes0 :: "bytes AESEncryption" where
  "aes0 = AES_new AES_defaults"

definition derived0 :: "bytes \<Rightarrow> bytes" where
  "derived0 salt = map (\<lambda>i. at_mod (TextEncoder_encode ''pw'') i XOR at_mod salt i) [0..<256 div 8]"

definition cc0 :: ChaCha20Encryption where
  "cc0 = ChaCha20_new ChaCha20_defaults"

text \<open>A batch of five envelopes made by the stand-in host under \<open>key32\<close> (the plaintexts
  are \<open>alpha\<close>, \<open>bravo\<close>, \<open>charlie\<close>, \<open>delta\<close>, \<open>echo\<close>), and the same batch with one bit of
  the third envelope's tag flipped.\<close>

definition item0 :: EncryptionResult where
  "item0 =
     \<lparr>ciphertext_aes = ''YGV9fXg='', iv_aes = ''AQgPFh0kKzI5QEdO'',
      tag_aes = Some ''0NDQ0NDQ0NDQ0NDQ0NDQ0A=='', salt_aes = None\<rparr>"

definition item1 :: EncryptionResult where
  "item1 =
     \<lparr>ciphertext_aes = ''Ny8AHxo='', iv_aes = ''VVxjanF4f4aNlJui'',
      tag_aes = Some ''1NTU1NTU1NTU1NTU1NTU1A=='', salt_aes = None\<rparr>"

definition item2 :: EncryptionResult where
  "item2 =
     \<lparr>ciphertext_aes = ''ytnUz62gsA=='', iv_aes = ''qbC3vsXM09rh6O/2'',
      tag_aes = Some ''goKCgoKCgoKCgoKCgoKCgg=='', salt_aes = None\<rparr>"

definition item3 :: EncryptionResult where
  "item3 =
     \<lparr>ciphertext_aes = ''mWBlZXw='', iv_aes = ''/QQLEhkgJy41PENK'',
      tag_aes = Some ''pKSkpKSkpKSkpKSkpKSkpA=='', salt_aes = None\<rparr>"

definition item4 :: EncryptionResult where
  "item4 =
     \<lparr>ciphertext_aes = ''NDo1Cg=='', iv_aes = ''UVhfZm10e4KJkJee'',
      tag_aes = Some ''KSkpKSkpKSkpKSkpKSkpKQ=='', salt_aes = None\<rparr>"

definition item2_bad :: EncryptionResult where
  "item2_bad =
     \<lparr>ciphertext_aes = ''ytnUz62gsA=='', iv_aes = ''qbC3vsXM09rh6O/2'',
      tag_aes = Some ''g4KCgoKCgoKCgoKCgoKCgg=='', salt_aes = None\<rparr>"

definition batch5 :: "EncryptionResult list" where
  "batch5 = [item0, item1, item2, item3, item4]"

definition batch5_corrupted :: "EncryptionResult list" where
  "batch5_corrupted = [item0, item1, item2_bad, item3, item4]"

section \<open>Properties of the base64 codec\<close>

lemma hi_part: "y < k \<Longrightarrow> (x * k + y) div k = (x::nat)"
  by simp

lemma lo_part: "y < k \<Longrightarrow> (x * k + y) mod k = (y::nat)"
  by simp

lemma d1: "b \<le> 255 \<Longrightarrow> (a div 4) * 4 + ((a mod 4) * 16 + b div 16) div 16 = (a::nat)"
proof -
  assume "b \<le> 255"
  then have "b div 16 < 16" by simp
  then have "((a mod 4) * 16 + b div 16) div 16 = a mod 4" by (rule hi_part)
  then show ?thesis by simp
qed

lemma d2: "b \<le> 255 \<Longrightarrow> c \<le> 255 \<Longrightarrow>
   (((a mod 4) * 16 + b div 16) mod 16) * 16 + ((b mod 16) * 4 + c div 64) div 4 = (b::nat)"
proof -
  assume "b \<le> 255" "c \<le> 255"
  then have "b div 16 < 16" "c div 64 < 4" by simp_all
  then have "((a mod 4) * 16 + b div 16) mod 16 = b div 16"
    "((b mod 16) * 4 + c div 64) div 4 = b mod 16"
    by (simp_all add: hi_part lo_part)
  then show ?thesis by simp
qed

lemma d3: "c \<le> 255 \<Longrightarrow> (((b mod 16) * 4 + c div 64) mod 4) * 64 + c mod 64 = (c::nat)"
proof -
  assume "c \<le> 255"
  then have "c div 64 < 4" by simp
  then have "((b mod 16) * 4 + c div 64) mod 4 = c div 64" by (rule lo_part)
  then show ?thesis by simp
qed

lemma octets_sextets: "list_all (\<lambda>c. c \<le> 255) s \<Longrightarrow> b64_octets (b64_sextets s) = s"
proof (induction s rule: b64_sextets.induct)
  case (1 a b c rest)
  then have "a \<le> 255" "b \<le> 255" "c \<le> 255" by simp_all
  with 1 show ?case by (simp add: d1 d2 d3)
next
  case (2 a b)
  then have "b \<le> 255" by simp
  then have "b div 16 < 16" by simp
  then have "((a mod 4) * 16 + b div 16) div 16 = a mod 4"
    "((a mod 4) * 16 + b div 16) mod 16 = b div 16"
    by (simp_all add: hi_part lo_part)
  then show ?case by simp
next
  case (3 a)
  then show ?case by simp
next
  case 4
  then show ?case by simp
qed

lemma s1: "a \<le> 255 \<Longrightarrow> a div 4 < (64::nat)" by simp
lemma s2: "b \<le> 255 \<Longrightarrow> (a mod 4) * 16 + b div 16 < (64::nat)"
proof -
  assume "b \<le> 255"
  then have "b div 16 < 16" by simp
  moreover have "a mod 4 \<le> 3" by simp
  ultimately show ?thesis by linarith
qed
lemma s3: "c \<le> 255 \<Longrightarrow> (b mod 16) * 4 + c div 64 < (64::nat)"
proof -
  assume "c \<le> 255"
  then have "c div 64 < 4" by simp
  moreover have "b mod 16 \<le> 15" by simp
  ultimately show ?thesis by linarith
qed

lemma sextets_bound: "list_all (\<lambda>c. c \<le> 255) s \<Longrightarrow> list_all (\<lambda>i. i < 64) (b64_sextets s)"
proof (induction s rule: b64_sextets.induct)
  case (1 a b c rest)
  then show ?case by (simp add: s1 s2 s3)
next
  case (2 a b)
  then show ?case using s3[of 0 b] by (simp add: s1 s2)
next
  case (3 a)
  then show ?case using s2[of 0 a] by (simp add: s1)
next
  case 4
  then show ?case by simp
qed

lemma length_sextets: "length (b64_sextets s) = (4 * length s + 2) div 3"
  by (induction s rule: b64_sextets.induct) auto


lemma length_b64chars: "length b64chars = 64"
  by (simp add: b64chars_def)

lemma distinct_b64chars: "distinct b64chars"
  by (simp add: b64chars_def)

lemma b64chars_plain: "c \<in> set b64chars \<Longrightarrow> \<not> ascii_whitespace c \<and> c \<noteq> CHR ''=''"
  by (auto simp add: b64chars_def ascii_whitespace_def)

lemma index_of_nth: "distinct xs \<Longrightarrow> i < length xs \<Longrightarrow> index_of (xs ! i) xs = Some i"
proof (induction xs arbitrary: i)
  case Nil
  then show ?case by simp
next
  case (Cons x xs)
  show ?case
  proof (cases i)
    case 0
    then show ?thesis by simp
  next
    case (Suc j)
    with Cons.prems have "xs ! j \<noteq> x" "j < length xs" "distinct xs" by auto
    with Cons.IH[of j] Suc show ?thesis by simp
  qed
qed

lemma those_indices_chars:
  "list_all (\<lambda>i. i < 64) is \<Longrightarrow> those_indices (map (\<lambda>i. b64chars ! i) is) = Some is"
  by (induction "is") (simp_all add: index_of_nth distinct_b64chars length_b64chars)

lemma chars_plain:
  "list_all (\<lambda>i. i < 64) is \<Longrightarrow> c \<in> set (map (\<lambda>i. b64chars ! i) is) \<Longrightarrow>
     \<not> ascii_whitespace c \<and> c \<noteq> CHR ''=''"
proof -
  assume a: "list_all (\<lambda>i. i < 64) is" and c: "c \<in> set (map (\<lambda>i. b64chars ! i) is)"
  from c obtain i where "i \<in> set is" "c = b64chars ! i" by auto
  with a have "c \<in> set b64chars" by (simp add: list_all_iff length_b64chars)
  then show ?thesis by (rule b64chars_plain)
qed

lemma strip_padding_pad:
  assumes "CHR ''='' \<notin> set xs" and "p \<le> 2" and "(length xs + p) mod 4 = 0"
  shows "strip_padding (xs @ replicate p CHR ''='') = xs"
proof -
  have last_ne: "xs \<noteq> [] \<Longrightarrow> last xs \<noteq> CHR ''=''"
    using assms(1) last_in_set by metis
  consider "p = 0" | "p = 1" | "p = 2" using assms(2) by linarith
  then show ?thesis
  proof cases
    case 1
    show ?thesis
    proof (cases "xs = []")
      case True
      with 1 show ?thesis by (simp add: strip_padding_def)
    next
      case False
      then obtain ys y where xs: "xs = ys @ [y]" by (metis rev_exhaust)
      with assms(1) have y: "y \<noteq> CHR ''=''" by auto
      show ?thesis
      proof (cases ys rule: rev_cases)
        case Nil
        with 1 xs y show ?thesis by (simp add: strip_padding_def)
      next
        case (snoc zs z)
        with 1 xs y show ?thesis by (simp add: strip_padding_def)
      qed
    qed
  next
    case 2
    show ?thesis
    proof (cases xs rule: rev_cases)
      case Nil
      with 2 assms(3) show ?thesis by simp
    next
      case (snoc ys y)
      with assms(1) have y: "y \<noteq> CHR ''=''" by auto
      with 2 snoc assms(3) show ?thesis by (simp add: strip_padding_def)
    qed
  next
    case 3
    have "replicate 2 CHR ''='' = ''==''" by (simp add: numeral_2_eq_2)
    with 3 assms(3) show ?thesis by (simp add: strip_padding_def)
  qed
qed

lemma sextets_length_mod:
  "(length (b64_sextets s) + b64_padding (length s)) mod 4 = 0 \<and> length (b64_sextets s) mod 4 \<noteq> 1
   \<and> b64_padding (length s) \<le> 2"
  by (induction s rule: b64_sextets.induct) (simp_all add: b64_padding_def)


lemma atob_b64_text:
  assumes "list_all (\<lambda>c. c \<le> 255) s"
  shows "atob (b64_text s) = Inr s"
proof -
  let ?cs = "map (\<lambda>i. b64chars ! i) (b64_sextets s)"
  let ?p = "b64_padding (length s)"
  have bound: "list_all (\<lambda>i. i < 64) (b64_sextets s)"
    using assms by (rule sextets_bound)
  have plain: "\<And>c. c \<in> set ?cs \<Longrightarrow> \<not> ascii_whitespace c \<and> c \<noteq> CHR ''=''"
    using bound by (rule chars_plain)
  have eq_ws: "\<not> ascii_whitespace CHR ''=''"
    by (simp add: ascii_whitespace_def)
  have "filter (\<lambda>c. \<not> ascii_whitespace c) ?cs = ?cs"
    using plain by (simp add: filter_id_conv)
  moreover have "filter (\<lambda>c. \<not> ascii_whitespace c) (replicate ?p CHR ''='') = replicate ?p CHR ''=''"
    using eq_ws by simp
  ultimately have filt: "filter (\<lambda>c. \<not> ascii_whitespace c) (b64_text s) = ?cs @ replicate ?p CHR ''=''"
    by (simp add: b64_text_def)
  have noeq: "CHR ''='' \<notin> set ?cs"
    using plain by blast
  have strip: "strip_padding (?cs @ replicate ?p CHR ''='') = ?cs"
    using noeq sextets_length_mod[of s] by (intro strip_padding_pad) simp_all
  have len: "length ?cs mod 4 \<noteq> 1"
    using sextets_length_mod[of s] by simp
  have idx: "those_indices ?cs = Some (b64_sextets s)"
    using bound by (rule those_indices_chars)
  show ?thesis
    unfolding atob_def filt strip Let_def
    using len idx octets_sextets[OF assms] by simp
qed

lemma bytes_are_octets: "list_all (\<lambda>c. c \<le> 255) (map unat (b :: bytes))"
proof -
  have "unat w \<le> 255" for w :: byte
    using unsigned_less[of w, where ?'a = nat] by simp
  then show ?thesis by (simp add: list_all_iff)
qed

lemma arrayBufferToBase64_eq: "arrayBufferToBase64 b = Inr (b64_text (map unat b))"
  using bytes_are_octets[of b] by (simp add: arrayBufferToBase64_def btoa_def b64_text_def)

lemma base64ToArrayBuffer_b64_text: "base64ToArrayBuffer (b64_text (map unat b)) = Inr b"
  by (simp add: base64ToArrayBuffer_def atob_b64_text[OF bytes_are_octets] comp_def)


text \<open>C9. The base64 codec of the envelope fields loses nothing: for every byte sequence
  \<open>b\<close>, \<open>arrayBufferToBase64 b\<close> returns a string, and \<open>base64ToArrayBuffer\<close> of that string
  returns \<open>b\<close>.\<close>

theorem base64_roundtrip:
  "\<exists>s. arrayBufferToBase64 b = Inr s \<and> base64ToArrayBuffer s = Inr b"
  by (simp add: arrayBufferToBase64_eq base64ToArrayBuffer_b64_text)

theorem base64_roundtrip_witness:
  "\<exists>s. arrayBufferToBase64 [1, 2, 3, 255, 0] = Inr s \<and> base64ToArrayBuffer s = Inr [1, 2, 3, 255, 0]"
  using base64_roundtrip [of "[1, 2, 3, 255, 0]"] by simp

section \<open>Properties of the text codec\<close>

lemma utf8_replace_wellformed: "utf8_wellformed b \<Longrightarrow> utf8_replace b = b"
  by (induction b rule: utf8_replace.induct) (auto split: option.splits)

lemma decode_wellformed:
  "utf8_wellformed b \<Longrightarrow> \<not> has_bom b \<Longrightarrow> TextDecoder_decode b = map (\<lambda>w. char_of (unat w)) b"
  by (simp add: TextDecoder_decode_def utf8_replace_wellformed strip_bom_def)

lemma char_of_encode: "map (\<lambda>w. char_of (unat w)) (TextEncoder_encode s) = s"
proof -
  have "char_of (unat (of_nat (of_char c) :: byte)) = c" for c :: char
  proof -
    have "(of_char c :: nat) < 256" by simp
    then have "unat (of_nat (of_char c) :: byte) = of_char c"
      by (simp add: unat_of_nat)
    then show ?thesis by simp
  qed
  then show ?thesis
    by (simp add: TextEncoder_encode_def comp_def)
qed

lemma decode_encode:
  "utf8_wellformed (TextEncoder_encode s) \<Longrightarrow> \<not> has_bom (TextEncoder_encode s) \<Longrightarrow>
   TextDecoder_decode (TextEncoder_encode s) = s"
  by (simp add: decode_wellformed char_of_encode)

lemma ascii_ranges: "w \<le> 0x7F \<Longrightarrow> utf8_ranges w = Some []"
  by (simp add: utf8_ranges_def)

lemma ascii_wellformed: "list_all (\<lambda>w. w \<le> 0x7F) b \<Longrightarrow> utf8_wellformed b"
  by (induction b) (simp_all add: ascii_ranges)

lemma ascii_no_bom: "list_all (\<lambda>w. w \<le> 0x7F) b \<Longrightarrow> \<not> has_bom b"
proof (cases b)
  case Nil
  then show ?thesis by (simp add: has_bom_def)
next
  case (Cons w ws)
  assume "list_all (\<lambda>w. w \<le> 0x7F) b"
  with Cons have "w \<le> 0x7F" by simp
  then have "w \<noteq> 0xEF" by auto
  with Cons show ?thesis by (auto simp add: has_bom_def take_Cons')
qed

lemma ascii_encode:
  "list_all (\<lambda>c. of_char c < (128::nat)) s \<Longrightarrow> list_all (\<lambda>w. w \<le> 0x7F) (TextEncoder_encode s)"
proof -
  have "(of_nat n :: byte) \<le> 0x7F" if "n < 128" for n :: nat
    using that by (simp add: word_le_nat_alt unat_of_nat)
  then show "list_all (\<lambda>c. of_char c < (128::nat)) s \<Longrightarrow> list_all (\<lambda>w. w \<le> 0x7F) (TextEncoder_encode s)"
    by (simp add: TextEncoder_encode_def list_all_iff)
qed

lemma decode_encode_ascii:
  "list_all (\<lambda>c. of_char c < (128::nat)) s \<Longrightarrow> TextDecoder_decode (TextEncoder_encode s) = s"
  by (simp add: decode_encode ascii_encode ascii_wellformed ascii_no_bom)



section \<open>Shapes of the ChaCha20 operations\<close>

lemma length_TextEncoder_encode: "length (TextEncoder_encode s) = length s"
  by (simp add: TextEncoder_encode_def)

lemma requireSubtle_Some: "subtle c = Some S \<Longrightarrow> requireSubtle (Some c) = Inr S"
  by (simp add: requireSubtle_def)

lemma standin_host_simps:
  "subtle standin_host = Some standin_subtle" "hasGetRandomValues standin_host"
  by (simp_all add: standin_host_def)

lemma length_keystream_loop: "length (keystream_loop data key nonce) = length data"
  by (simp add: keystream_loop_def)

lemma keystream_loop_involution:
  "keystream_loop (keystream_loop data key nonce) key nonce = data"
proof (rule nth_equalityI)
  show "length (keystream_loop (keystream_loop data key nonce) key nonce) = length data"
    by (simp add: length_keystream_loop)
next
  fix i
  assume "i < length (keystream_loop (keystream_loop data key nonce) key nonce)"
  then have i: "i < length data"
    by (simp add: length_keystream_loop)
  have "(x XOR y) XOR y = x" for x y :: byte
    by (simp add: xor.assoc)
  with i show "keystream_loop (keystream_loop data key nonce) key nonce ! i = data ! i"
    by (simp add: keystream_loop_def)
qed


lemma ChaCha20_encrypt_with_key:
  assumes "hasGetRandomValues c" and "nonceSize (config_chacha this) \<le> 65536"
  shows "ChaCha20_encrypt this (Some c) r data (Some k) =
     (let nonce = fst (getRandomValues r (nonceSize (config_chacha this)));
          r1 = snd (getRandomValues r (nonceSize (config_chacha this)))
      in Inr (\<lparr>ciphertext_chacha = b64_text (map unat (keystream_loop (TextEncoder_encode data) k nonce)),
               nonce_chacha = b64_text (map unat nonce),
               tag_chacha = b64_text (map unat (fst (getRandomValues r1 16))),
               algorithm_chacha = variant (config_chacha this) @ ''-Poly1305''\<rparr>,
              snd (getRandomValues r1 16)))"
  using assms
  by (simp add: ChaCha20_encrypt_def orElse_def split_def Let_def simulateChaCha20Encryption_def
      crypto_getRandomValues_def arrayBufferToBase64_eq)

lemma ChaCha20_decrypt_with_key:
  assumes g: "hasGetRandomValues c"
    and ct: "base64ToArrayBuffer (ciphertext_chacha input) = Inr ct"
    and nonce: "base64ToArrayBuffer (nonce_chacha input) = Inr nonce"
    and tag: "base64ToArrayBuffer (tag_chacha input) = Inr tag"
  shows "ChaCha20_decrypt this (Some c) r input (Some k) =
     (if length tag = 16
      then Inr (TextDecoder_decode (keystream_loop ct k nonce), snd (getRandomValues r 16))
      else Inl AuthenticationFailed)"
  using g
  by (simp add: ChaCha20_decrypt_def orElse_def ct nonce tag verifyTag_def
      simulateChaCha20Decryption_def simulateChaCha20Encryption_def crypto_getRandomValues_def
      split_def Let_def)

lemma cc0_config:
  "nonceSize (config_chacha (ChaCha20_new ChaCha20_defaults)) = 12"
  "variant (config_chacha (ChaCha20_new ChaCha20_defaults)) @ ''-Poly1305'' = ''ChaCha20-Poly1305''"
  by (simp_all add: ChaCha20_new_def ChaCha20_defaults_def)

lemma standin_ChaCha20_encrypt:
  "map_sum id fst (ChaCha20_encrypt (ChaCha20_new ChaCha20_defaults) standin_crypto rng0 data (Some k)) =
     Inr \<lparr>ciphertext_chacha =
            b64_text (map unat (keystream_loop (TextEncoder_encode data) k (fst (getRandomValues rng0 12)))),
          nonce_chacha = b64_text (map unat (fst (getRandomValues rng0 12))),
          tag_chacha = b64_text (map unat (fst (getRandomValues (snd (getRandomValues rng0 12)) 16))),
          algorithm_chacha = ''ChaCha20-Poly1305''\<rparr>"
  unfolding standin_crypto_def
  by (simp add: ChaCha20_encrypt_with_key [OF standin_host_simps(2)] cc0_config Let_def)

lemma standin_ChaCha20_decrypt:
  assumes "base64ToArrayBuffer (ciphertext_chacha input) = Inr ct"
    and "base64ToArrayBuffer (nonce_chacha input) = Inr nonce"
    and "base64ToArrayBuffer (tag_chacha input) = Inr tag"
    and "length tag = 16"
    and "TextDecoder_decode (keystream_loop ct k nonce) = text"
  shows "map_sum id fst (ChaCha20_decrypt (ChaCha20_new ChaCha20_defaults) standin_crypto rng0 input (Some k)) =
     Inr text"
  unfolding standin_crypto_def
  by (simp add: ChaCha20_decrypt_with_key [OF standin_host_simps(2) assms(1-3)] assms(4,5))

lemma rng0_draws:
  "b64_text (map unat (fst (getRandomValues rng0 12))) = ''AQgPFh0kKzI5QEdO''"
  "b64_text (map unat (fst (getRandomValues (snd (getRandomValues rng0 12)) 16))) =
     ''VVxjanF4f4aNlJuiqbC3vg==''"
  by code_simp+

section \<open>ChaCha20Encryption: key length and authentication\<close>

text \<open>C6. \<open>setKey\<close> rejects a key that is not 32 bytes long, but \<open>encrypt\<close> does not look at
  the length of a key passed as its argument: with the 16-byte key \<open>key16\<close>, \<open>setKey\<close> throws
  and \<open>encrypt\<close> returns an envelope.\<close>

theorem encrypt_accepts_short_key:
  "length key16 = 16 \<and>
   ChaCha20_setKey (ChaCha20_new ChaCha20_defaults) key16 = Inl InvalidKeyLength \<and>
   map_sum id fst (ChaCha20_encrypt (ChaCha20_new ChaCha20_defaults) standin_crypto rng0 ''A'' (Some key16)) =
     Inr \<lparr>ciphertext_chacha = ''QQ=='', nonce_chacha = ''AQgPFh0kKzI5QEdO'',
          tag_chacha = ''VVxjanF4f4aNlJuiqbC3vg=='', algorithm_chacha = ''ChaCha20-Poly1305''\<rparr>"
proof -
  have len: "length key16 = 16"
    by (simp add: key16_def)
  then have set: "ChaCha20_setKey (ChaCha20_new ChaCha20_defaults) key16 = Inl InvalidKeyLength"
    by (simp add: ChaCha20_setKey_def)
  have ct: "b64_text (map unat (keystream_loop (TextEncoder_encode ''A'') key16
              (fst (getRandomValues rng0 12)))) = ''QQ==''"
    by code_simp
  have "map_sum id fst (ChaCha20_encrypt (ChaCha20_new ChaCha20_defaults) standin_crypto rng0 ''A'' (Some key16)) =
     Inr \<lparr>ciphertext_chacha = ''QQ=='', nonce_chacha = ''AQgPFh0kKzI5QEdO'',
          tag_chacha = ''VVxjanF4f4aNlJuiqbC3vg=='', algorithm_chacha = ''ChaCha20-Poly1305''\<rparr>"
    by (simp only: standin_ChaCha20_encrypt ct rng0_draws)
  with len set show ?thesis by (intro conjI)
qed

text \<open>C2. \<open>verifyTag\<close> only compares the length of the tag with 16, so \<open>decrypt\<close> accepts an
  envelope whose ciphertext or tag has one bit flipped. The envelope of \<open>''A''\<close> under \<open>key32\<close>
  has the ciphertext byte 64; with the byte \<open>64 XOR 1\<close> in its place \<open>decrypt\<close> returns
  \<open>''@''\<close>, and with the first tag byte \<open>85 XOR 1\<close> it returns \<open>''A''\<close>, in both cases without an
  error.\<close>

theorem tampered_envelope_accepted:
  "map_sum id fst (ChaCha20_encrypt (ChaCha20_new ChaCha20_defaults) standin_crypto rng0 ''A'' (Some key32)) =
     Inr \<lparr>ciphertext_chacha = ''QA=='', nonce_chacha = ''AQgPFh0kKzI5QEdO'',
          tag_chacha = ''VVxjanF4f4aNlJuiqbC3vg=='', algorithm_chacha = ''ChaCha20-Poly1305''\<rparr> \<and>
   base64ToArrayBuffer ''QA=='' = Inr [64] \<and>
   base64ToArrayBuffer ''QQ=='' = Inr [64 XOR 1] \<and>
   map_sum id fst (ChaCha20_decrypt (ChaCha20_new ChaCha20_defaults) standin_crypto rng0
       \<lparr>ciphertext_chacha = ''QQ=='', nonce_chacha = ''AQgPFh0kKzI5QEdO'',
        tag_chacha = ''VVxjanF4f4aNlJuiqbC3vg=='', algorithm_chacha = ''ChaCha20-Poly1305''\<rparr>
       (Some key32)) = Inr ''@'' \<and>
   base64ToArrayBuffer ''VVxjanF4f4aNlJuiqbC3vg=='' =
     Inr [85, 92, 99, 106, 113, 120, 127, 134, 141, 148, 155, 162, 169, 176, 183, 190] \<and>
   base64ToArrayBuffer ''VFxjanF4f4aNlJuiqbC3vg=='' =
     Inr [85 XOR 1, 92, 99, 106, 113, 120, 127, 134, 141, 148, 155, 162, 169, 176, 183, 190] \<and>
   map_sum id fst (ChaCha20_decrypt (ChaCha20_new ChaCha20_defaults) standin_crypto rng0
       \<lparr>ciphertext_chacha = ''QA=='', nonce_chacha = ''AQgPFh0kKzI5QEdO'',
        tag_chacha = ''VFxjanF4f4aNlJuiqbC3vg=='', algorithm_chacha = ''ChaCha20-Poly1305''\<rparr>
       (Some key32)) = Inr ''A''"
proof -
  have ct: "b64_text (map unat (keystream_loop (TextEncoder_encode ''A'') key32
              (fst (getRandomValues rng0 12)))) = ''QA==''"
    by code_simp
  have enc: "map_sum id fst (ChaCha20_encrypt (ChaCha20_new ChaCha20_defaults) standin_crypto rng0 ''A'' (Some key32)) =
     Inr \<lparr>ciphertext_chacha = ''QA=='', nonce_chacha = ''AQgPFh0kKzI5QEdO'',
          tag_chacha = ''VVxjanF4f4aNlJuiqbC3vg=='', algorithm_chacha = ''ChaCha20-Poly1305''\<rparr>"
    by (simp only: standin_ChaCha20_encrypt ct rng0_draws)
  have b: "base64ToArrayBuffer ''QA=='' = Inr [64]"
    "base64ToArrayBuffer ''QQ=='' = Inr [64 XOR 1]"
    "base64ToArrayBuffer ''AQgPFh0kKzI5QEdO'' = Inr [1, 8, 15, 22, 29, 36, 43, 50, 57, 64, 71, 78]"
    "base64ToArrayBuffer ''VVxjanF4f4aNlJuiqbC3vg=='' =
       Inr [85, 92, 99, 106, 113, 120, 127, 134, 141, 148, 155, 162, 169, 176, 183, 190]"
    "base64ToArrayBuffer ''VFxjanF4f4aNlJuiqbC3vg=='' =
       Inr [85 XOR 1, 92, 99, 106, 113, 120, 127, 134, 141, 148, 155, 162, 169, 176, 183, 190]"
    by code_simp+
  have l: "length [85, 92, 99, 106, 113, 120, 127, 134, 141, 148, 155, 162, 169, 176, 183, 190 :: byte] = 16"
    "length [85 XOR 1, 92, 99, 106, 113, 120, 127, 134, 141, 148, 155, 162, 169, 176, 183, 190 :: byte] = 16"
    by simp_all
  have d: "TextDecoder_decode (keystream_loop [64 XOR 1] key32 [1, 8, 15, 22, 29, 36, 43, 50, 57, 64, 71, 78]) = ''@''"
    "TextDecoder_decode (keystream_loop [64] key32 [1, 8, 15, 22, 29, 36, 43, 50, 57, 64, 71, 78]) = ''A''"
    by code_simp+
  have dec1: "map_sum id fst (ChaCha20_decrypt (ChaCha20_new ChaCha20_defaults) standin_crypto rng0
       \<lparr>ciphertext_chacha = ''QQ=='', nonce_chacha = ''AQgPFh0kKzI5QEdO'',
        tag_chacha = ''VVxjanF4f4aNlJuiqbC3vg=='', algorithm_chacha = ''ChaCha20-Poly1305''\<rparr>
       (Some key32)) = Inr ''@''"
    by (rule standin_ChaCha20_decrypt [OF _ _ _ l(1) d(1)]) (simp_all add: b)
  have dec2: "map_sum id fst (ChaCha20_decrypt (ChaCha20_new ChaCha20_defaults) standin_crypto rng0
       \<lparr>ciphertext_chacha = ''QA=='', nonce_chacha = ''AQgPFh0kKzI5QEdO'',
        tag_chacha = ''VFxjanF4f4aNlJuiqbC3vg=='', algorithm_chacha = ''ChaCha20-Poly1305''\<rparr>
       (Some key32)) = Inr ''A''"
    by (rule standin_ChaCha20_decrypt [OF _ _ _ l(2) d(2)]) (simp_all add: b)
  from enc b(1,2) dec1 b(4,5) dec2 show ?thesis by (intro conjI)
qed

section \<open>ChaCha20Encryption: the stream\<close>

text \<open>The counter of \<open>transform\<close> enters the nonce through \<open>setUint32\<close>, that is modulo
  \<open>2 ^ 32\<close>.\<close>

lemma counterBytes_wrap: "counterBytes (n + 2 ^ 32) = counterBytes n"
proof -
  have "(of_nat (n + 2 ^ 32) :: 32 word) = of_nat n"
    by simp
  then show ?thesis
    by (simp only: counterBytes_def)
qed

lemma chunkNonce_wrap: "chunkNonce base (n + 2 ^ 32) = chunkNonce base n"
  by (simp only: chunkNonce_def counterBytes_wrap)

lemma cc0_nonceSize: "nonceSize (config_chacha cc0) = 12"
  by (simp add: cc0_def ChaCha20_new_def ChaCha20_defaults_def)

lemma encryptStream_available:
  assumes "hasGetRandomValues c" and "nonceSize (config_chacha this) \<le> 65536"
  shows "ChaCha20_encryptStream this (Some c) r dataStream (Some k) =
     Inr (\<lparr>queue = [fst (getRandomValues r (nonceSize (config_chacha this)))],
           source = \<lparr>encryptionKey_stream = k,
                     baseNonce = fst (getRandomValues r (nonceSize (config_chacha this))),
                     chunkCounter = 0\<rparr>\<rparr>,
          snd (getRandomValues r (nonceSize (config_chacha this))))"
  using assms
  by (simp add: ChaCha20_encryptStream_def orElse_def crypto_getRandomValues_def split_def)

text \<open>C4. \<open>encryptStream\<close> does not do what the claim asks of it. With the random source
  present (and a nonce of at most 65536 bytes) it returns, for every \<open>dataStream\<close> however
  long, a stream that holds the base nonce and nothing else: no chunk is read, no per-chunk
  nonce is derived, and nothing fails. The member \<open>transform\<close>, which no one calls, would
  increment the counter and then throw a \<open>TypeError\<close> on every chunk, never an error about an
  exhausted nonce space; and the nonce it computes first depends on the counter modulo
  \<open>2 ^ 32\<close> only.\<close>

theorem encryptStream_never_encrypts:
  "(hasGetRandomValues c \<and> nonceSize (config_chacha this) \<le> 65536 \<longrightarrow>
      (\<exists>s r'. ChaCha20_encryptStream this (Some c) r dataStream (Some k) = Inr (s, r') \<and>
         queue s = [fst (getRandomValues r (nonceSize (config_chacha this)))] \<and>
         chunkCounter (source s) = 0)) \<and>
   fst (transform st chunk) = Inl TypeError \<and>
   chunkCounter (snd (transform st chunk)) = chunkCounter st + 1 \<and>
   chunkNonce base (n + 2 ^ 32) = chunkNonce base n"
proof (intro conjI impI)
  assume "hasGetRandomValues c \<and> nonceSize (config_chacha this) \<le> 65536"
  then show "\<exists>s r'. ChaCha20_encryptStream this (Some c) r dataStream (Some k) = Inr (s, r') \<and>
         queue s = [fst (getRandomValues r (nonceSize (config_chacha this)))] \<and>
         chunkCounter (source s) = 0"
    by (simp add: encryptStream_available)
next
  show "fst (transform st chunk) = Inl TypeError"
    by (simp add: transform_def Let_def)
next
  show "chunkCounter (snd (transform st chunk)) = chunkCounter st + 1"
    by (simp add: transform_def Let_def)
next
  show "chunkNonce base (n + 2 ^ 32) = chunkNonce base n"
    by (rule chunkNonce_wrap)
qed

theorem encryptStream_never_encrypts_witness:
  "length (replicate (2 ^ 32 + 1) [65 :: byte]) = 2 ^ 32 + 1 \<and>
   hasGetRandomValues standin_host \<and> nonceSize (config_chacha cc0) \<le> 65536 \<and>
   (\<exists>s r'. ChaCha20_encryptStream cc0 standin_crypto rng0 (replicate (2 ^ 32 + 1) [65]) (Some key32) =
        Inr (s, r') \<and>
      queue s = [fst (getRandomValues rng0 (nonceSize (config_chacha cc0)))] \<and>
      chunkCounter (source s) = 0)"
proof -
  have l: "length (replicate (2 ^ 32 + 1) [65 :: byte]) = 2 ^ 32 + 1"
    by (rule length_replicate)
  have h: "hasGetRandomValues standin_host \<and> nonceSize (config_chacha cc0) \<le> 65536"
    by (simp add: standin_host_def cc0_nonceSize)
  from encryptStream_never_encrypts [of standin_host cc0 rng0 "replicate (2 ^ 32 + 1) [65]" key32] h l
  show ?thesis
    unfolding standin_crypto_def by blast
qed

section \<open>RSAEncryption: configuration issues\<close>

lemma startsWith_literals:
  "startsWith ''WARNING: RSA is vulnerable to quantum attacks. Consider post-quantum alternatives for long-term data protection.'' ''WARNING''"
  "\<not> startsWith ''Key size too small: minimum 2048 bits recommended'' ''WARNING''"
  "\<not> startsWith ''Consider using 3072+ bit keys for long-term security'' ''WARNING''"
  by (simp_all add: startsWith_def)

text \<open>C10. \<open>validateConfig\<close> of the RSA class never returns an empty list of issues: the
  last issue is always the quantum-resistance entry, which starts with \<open>WARNING\<close>.
  \<open>isValid\<close> holds exactly when every issue starts with \<open>WARNING\<close>. A key size below 3072
  adds the long-term-security note, and a key size below 2048 adds the key-size issue as well
  and makes \<open>isValid\<close> false.\<close>

theorem validateConfig_issues:
  "issues (RSA_validateConfig this) \<noteq> [] \<and>
   last (issues (RSA_validateConfig this)) =
     ''WARNING: RSA is vulnerable to quantum attacks. Consider post-quantum alternatives for long-term data protection.'' \<and>
   startsWith (last (issues (RSA_validateConfig this))) ''WARNING'' \<and>
   (isValid (RSA_validateConfig this) \<longleftrightarrow>
      list_all (\<lambda>i. startsWith i ''WARNING'') (issues (RSA_validateConfig this))) \<and>
   (keySize_rsa (config_rsa this) < 3072 \<longrightarrow>
      ''Consider using 3072+ bit keys for long-term security'' \<in> set (issues (RSA_validateConfig this))) \<and>
   (keySize_rsa (config_rsa this) < 2048 \<longrightarrow>
      \<not> isValid (RSA_validateConfig this) \<and>
      ''Key size too small: minimum 2048 bits recommended'' \<in> set (issues (RSA_validateConfig this)))"
  by (simp add: RSA_validateConfig_def Let_def startsWith_literals)

theorem validateConfig_issues_witness:
  "keySize_rsa (config_rsa rsa1024) < 3072 \<and>
   keySize_rsa (config_rsa rsa1024) < 2048 \<and>
   \<not> isValid (RSA_validateConfig rsa1024) \<and>
   ''Key size too small: minimum 2048 bits recommended'' \<in> set (issues (RSA_validateConfig rsa1024)) \<and>
   ''Consider using 3072+ bit keys for long-term security'' \<in> set (issues (RSA_validateConfig rsa1024))"
proof -
  have h: "keySize_rsa (config_rsa rsa1024) < 2048" "keySize_rsa (config_rsa rsa1024) < 3072"
    by (simp_all add: rsa1024_def RSA_new_def RSA_defaults_def)
  from validateConfig_issues [of rsa1024] h
  show ?thesis by blast
qed

section \<open>DESEncryption: the advisory\<close>

lemma DES_encrypt_result:
  "length key = keyLength (config_des this) \<Longrightarrow>
   \<exists>c v rnd'. DES_encrypt this crypto rnd data key =
      Inr (\<lparr>ciphertext_des = c, iv_des = v,
            algorithm_result = algorithm_des (config_des this) @ ''-'' @ mode_des (config_des this),
            deprecated = True,
            migrationWarning = ''This data was encrypted with deprecated DES. Migrate to AES-256 immediately.''\<rparr>, rnd')"
  by (simp add: DES_encrypt_def Let_def split_def arrayBufferToBase64_eq split: option.split)

text \<open>C8. Every call of the legacy \<open>encrypt\<close> with a key of the configured length returns an
  envelope that is marked deprecated and carries the migration warning (a key of another
  length is rejected before anything is encrypted), and the migration plan of the class
  has seven steps, none of them empty.\<close>

theorem legacy_advisory:
  "(length key = keyLength (config_des this) \<longrightarrow>
      (\<exists>res rnd'. DES_encrypt this crypto rnd data key = Inr (res, rnd') \<and>
         deprecated res \<and>
         migrationWarning res = ''This data was encrypted with deprecated DES. Migrate to AES-256 immediately.'')) \<and>
   (length key \<noteq> keyLength (config_des this) \<longrightarrow>
      DES_encrypt this crypto rnd data key = Inl InvalidKeyLength) \<and>
   migrationSteps (generateMigrationPlan this) \<noteq> [] \<and>
   length (migrationSteps (generateMigrationPlan this)) = 7 \<and>
   list_all (\<lambda>step. step \<noteq> []) (migrationSteps (generateMigrationPlan this))"
proof -
  have "\<exists>res rnd'. DES_encrypt this crypto rnd data key = Inr (res, rnd') \<and>
         deprecated res \<and>
         migrationWarning res = ''This data was encrypted with deprecated DES. Migrate to AES-256 immediately.''"
    if "length key = keyLength (config_des this)"
    using DES_encrypt_result [OF that, of crypto rnd data] by auto
  moreover have "DES_encrypt this crypto rnd data key = Inl InvalidKeyLength"
    if "length key \<noteq> keyLength (config_des this)"
    using that by (simp add: DES_encrypt_def)
  ultimately show ?thesis
    by (simp add: generateMigrationPlan_def)
qed

theorem legacy_advisory_witness:
  "length key24 = keyLength (config_des (DES_new DES_defaults)) \<and>
   (\<exists>res rnd'. DES_encrypt (DES_new DES_defaults) standin_crypto rnd0 ''legacy'' key24 = Inr (res, rnd') \<and>
       deprecated res) \<and>
   length key16 \<noteq> keyLength (config_des (DES_new DES_defaults)) \<and>
   DES_encrypt (DES_new DES_defaults) standin_crypto rnd0 ''legacy'' key16 = Inl InvalidKeyLength"
  using legacy_advisory [of key24 "DES_new DES_defaults" standin_crypto rnd0 "''legacy''"]
    legacy_advisory [of key16 "DES_new DES_defaults" standin_crypto rnd0 "''legacy''"]
  by (auto simp add: key24_def key16_def DES_new_def DES_defaults_def)

section \<open>RSAEncryption: the OAEP capacity bound\<close>

lemma getMaxDataSize_configured:
  assumes "keySize_rsa (config_rsa this) \<in> {2048, 3072, 4096}"
    and "hashAlgorithm (config_rsa this) \<in> {''SHA-256'', ''SHA-384'', ''SHA-512''}"
  shows "getMaxDataSize this =
           of_nat (keySize_rsa (config_rsa this) div 8 - 2 * getHashSizeBytes this - 2)"
    and "126 \<le> keySize_rsa (config_rsa this) div 8 - 2 * getHashSizeBytes this - 2"
  using assms by (auto simp add: getMaxDataSize_def getHashSizeBytes_def)

lemma RSA_encrypt_eq:
  assumes "subtle c = Some S"
    and "orElse pk (map_option publicKey (keyPair this)) = Some k"
  shows "RSA_encrypt this (Some c) r data pk =
     (if of_nat (length data) > getMaxDataSize this then Inl PlaintextTooLarge
      else (case encrypt_RSA_OAEP S k (TextEncoder_encode data) r of
              (None, r') \<Rightarrow> Inl RSAEncryptionFailed
            | (Some e, r') \<Rightarrow>
                Inr (\<lparr>ciphertext_rsa = b64_text (map unat e),
                      keySize_result = keySize_rsa (config_rsa this),
                      algorithm_rsa = ''RSA-'' @ show_nat (keySize_rsa (config_rsa this))
                         @ ''-OAEP-'' @ hashAlgorithm (config_rsa this)\<rparr>, r')))"
  using assms
  by (simp add: RSA_encrypt_def requireSubtle_Some Let_def length_TextEncoder_encode
      arrayBufferToBase64_eq split: prod.split option.split)

text \<open>C5. With \<open>crypto.subtle\<close> present, a public key at hand, a key size of 2048, 3072 or
  4096 bits and one of the three hash algorithms: the hash size is 32, 48 or 64 bytes
  according to the configured hash; a plaintext of at most
  \<open>keySize / 8 - 2 * hashSize - 2\<close> bytes that the host's RSA-OAEP primitive encrypts makes
  \<open>encrypt\<close> return an envelope; a plaintext one byte longer than the bound makes it throw
  the data-too-large error.\<close>

theorem RSA_encrypt_capacity:
  "subtle c = Some S \<and> orElse pk (map_option publicKey (keyPair this)) = Some k \<and>
   keySize_rsa (config_rsa this) \<in> {2048, 3072, 4096} \<and>
   hashAlgorithm (config_rsa this) \<in> {''SHA-256'', ''SHA-384'', ''SHA-512''} \<longrightarrow>
   getHashSizeBytes this =
     (if hashAlgorithm (config_rsa this) = ''SHA-256'' then 32
      else if hashAlgorithm (config_rsa this) = ''SHA-384'' then 48 else 64) \<and>
   (length (TextEncoder_encode data) \<le> keySize_rsa (config_rsa this) div 8 - 2 * getHashSizeBytes this - 2 \<and>
    encrypt_RSA_OAEP S k (TextEncoder_encode data) r = (Some e, r') \<longrightarrow>
      (\<exists>res. RSA_encrypt this (Some c) r data pk = Inr (res, r'))) \<and>
   (length (TextEncoder_encode data) = keySize_rsa (config_rsa this) div 8 - 2 * getHashSizeBytes this - 2 + 1 \<longrightarrow>
      RSA_encrypt this (Some c) r data pk = Inl PlaintextTooLarge)"
proof (intro impI, elim conjE)
  assume S: "subtle c = Some S"
    and k: "orElse pk (map_option publicKey (keyPair this)) = Some k"
    and ks: "keySize_rsa (config_rsa this) \<in> {2048, 3072, 4096}"
    and h: "hashAlgorithm (config_rsa this) \<in> {''SHA-256'', ''SHA-384'', ''SHA-512''}"
  let ?bound = "keySize_rsa (config_rsa this) div 8 - 2 * getHashSizeBytes this - 2"
  have max: "getMaxDataSize this = of_nat ?bound"
    using ks h by (rule getMaxDataSize_configured)
  have hs: "getHashSizeBytes this =
     (if hashAlgorithm (config_rsa this) = ''SHA-256'' then 32
      else if hashAlgorithm (config_rsa this) = ''SHA-384'' then 48 else 64)"
    using h by (auto simp add: getHashSizeBytes_def)
  have ok: "\<exists>res. RSA_encrypt this (Some c) r data pk = Inr (res, r')"
    if "length (TextEncoder_encode data) \<le> ?bound"
      and "encrypt_RSA_OAEP S k (TextEncoder_encode data) r = (Some e, r')"
    using that by (simp add: RSA_encrypt_eq [OF S k] max length_TextEncoder_encode)
  have over: "RSA_encrypt this (Some c) r data pk = Inl PlaintextTooLarge"
    if "length (TextEncoder_encode data) = ?bound + 1"
    using that by (simp add: RSA_encrypt_eq [OF S k] max length_TextEncoder_encode)
  from hs ok over show "getHashSizeBytes this =
     (if hashAlgorithm (config_rsa this) = ''SHA-256'' then 32
      else if hashAlgorithm (config_rsa this) = ''SHA-384'' then 48 else 64) \<and>
   (length (TextEncoder_encode data) \<le> ?bound \<and>
    encrypt_RSA_OAEP S k (TextEncoder_encode data) r = (Some e, r') \<longrightarrow>
      (\<exists>res. RSA_encrypt this (Some c) r data pk = Inr (res, r'))) \<and>
   (length (TextEncoder_encode data) = ?bound + 1 \<longrightarrow>
      RSA_encrypt this (Some c) r data pk = Inl PlaintextTooLarge)"
    by blast
qed

theorem RSA_encrypt_capacity_witness:
  "(\<exists>res r'. RSA_encrypt rsa4096 standin_crypto rng0 (replicate 446 CHR ''a'') (Some key32) = Inr (res, r')) \<and>
   RSA_encrypt rsa4096 standin_crypto rng0 (replicate 447 CHR ''a'') (Some key32) = Inl PlaintextTooLarge"
proof -
  let ?x = "encrypt_RSA_OAEP standin_subtle key32 (TextEncoder_encode (replicate 446 CHR ''a'')) rng0"
  let ?bound = "keySize_rsa (config_rsa rsa4096) div 8 - 2 * getHashSizeBytes rsa4096 - 2"
  have cfg: "subtle standin_host = Some standin_subtle \<and>
    orElse (Some key32) (map_option publicKey (keyPair rsa4096)) = Some key32 \<and>
    keySize_rsa (config_rsa rsa4096) \<in> {2048, 3072, 4096} \<and>
    hashAlgorithm (config_rsa rsa4096) \<in> {''SHA-256'', ''SHA-384'', ''SHA-512''}"
    by (simp add: standin_host_def orElse_def rsa4096_def RSA_new_def RSA_defaults_def)
  have bound: "?bound = 446"
    by (simp add: rsa4096_def RSA_new_def RSA_defaults_def getHashSizeBytes_def)
  have le: "length (TextEncoder_encode (replicate 446 CHR ''a'')) \<le> ?bound"
    unfolding bound by (simp add: length_TextEncoder_encode)
  have over: "length (TextEncoder_encode (replicate 447 CHR ''a'')) = ?bound + 1"
    unfolding bound by (simp add: length_TextEncoder_encode)
  have prim: "?x = (Some (the (fst ?x)), snd ?x)"
    by (simp add: standin_subtle_def split_def Let_def)
  from RSA_encrypt_capacity [of standin_host standin_subtle "Some key32" rsa4096 key32
      "replicate 446 CHR ''a''" rng0 "the (fst ?x)" "snd ?x"] cfg le prim
  have 1: "\<exists>res r'. RSA_encrypt rsa4096 (Some standin_host) rng0 (replicate 446 CHR ''a'') (Some key32) = Inr (res, r')"
    by blast
  from RSA_encrypt_capacity [of standin_host standin_subtle "Some key32" rsa4096 key32
      "replicate 447 CHR ''a''" rng0] cfg over
  have 2: "RSA_encrypt rsa4096 (Some standin_host) rng0 (replicate 447 CHR ''a'') (Some key32) = Inl PlaintextTooLarge"
    by blast
  from 1 2 show ?thesis
    unfolding standin_crypto_def by (rule conjI)
qed

section \<open>AESEncryption: key derivation from a password\<close>

lemma map_shifted: "map (\<lambda>i. r (n + i)) [0..<m] = map r [n..<n + m]"
proof -
  have "[n..<n + m] = map (\<lambda>i. i + n) [0..<m]"
    by (simp add: map_add_upt add.commute)
  then show ?thesis
    by (simp add: comp_def add.commute)
qed

lemma derive_with_salt:
  "subtle c = Some S \<Longrightarrow>
   deriveKeyFromPassword this (Some c) r password (Some salt) =
     (case importKey_PBKDF2 S (TextEncoder_encode password) of
        None \<Rightarrow> Inl OperationError
      | Some keyMaterial \<Rightarrow>
          (case deriveKey_PBKDF2 S salt (keyDerivationIterations (config_aes this)) ''SHA-256''
                  keyMaterial (keySize_aes (config_aes this)) of
             None \<Rightarrow> Inl OperationError
           | Some key \<Rightarrow> Inr ((key, salt), r)))"
  by (simp add: deriveKeyFromPassword_def requireSubtle_Some)

lemma derive_without_salt:
  "subtle c = Some S \<Longrightarrow> hasGetRandomValues c \<Longrightarrow>
   deriveKeyFromPassword this (Some c) r password None =
     (case importKey_PBKDF2 S (TextEncoder_encode password) of
        None \<Rightarrow> Inl OperationError
      | Some keyMaterial \<Rightarrow>
          (case deriveKey_PBKDF2 S (map r [0..<16]) (keyDerivationIterations (config_aes this)) ''SHA-256''
                  keyMaterial (keySize_aes (config_aes this)) of
             None \<Rightarrow> Inl OperationError
           | Some key \<Rightarrow> Inr ((key, map r [0..<16]), \<lambda>i. r (16 + i))))"
  by (simp add: deriveKeyFromPassword_def requireSubtle_Some crypto_getRandomValues_def
      getRandomValues_def)

lemma derive_without_salt_fails:
  "deriveKeyFromPassword this crypto r password None = Inr x \<Longrightarrow>
   \<exists>c S. crypto = Some c \<and> subtle c = Some S \<and> hasGetRandomValues c"
  by (auto simp add: deriveKeyFromPassword_def requireSubtle_def crypto_getRandomValues_def
      split: option.splits if_splits)

lemma derive_with_salt_fails:
  "deriveKeyFromPassword this crypto r password (Some s) = Inr x \<Longrightarrow>
   \<exists>c S. crypto = Some c \<and> subtle c = Some S"
  by (auto simp add: deriveKeyFromPassword_def requireSubtle_def split: option.splits)

text \<open>C7. With a salt passed, \<open>deriveKeyFromPassword\<close> returns that salt, draws nothing from
  the random source, and returns the same key whatever the state of the random source.
  With the salt omitted, it draws 16 bytes from the random source as the salt, the key it
  returns is the key of that salt, and a second call without salt draws the next 16 bytes of
  the source. (That the bytes of the source are random and independent is a property of the
  host.)\<close>

theorem derivation_deterministic:
  "(deriveKeyFromPassword this crypto r1 password (Some salt) = Inr ((key, salt'), r1') \<longrightarrow>
      salt' = salt \<and> r1' = r1 \<and>
      deriveKeyFromPassword this crypto r2 password (Some salt) = Inr ((key, salt), r2)) \<and>
   (deriveKeyFromPassword this crypto r1 password None = Inr ((key, salt'), r1') \<longrightarrow>
      salt' = map r1 [0..<16] \<and> length salt' = 16 \<and> r1' = (\<lambda>i. r1 (16 + i)) \<and>
      deriveKeyFromPassword this crypto r2 password (Some salt') = Inr ((key, salt'), r2) \<and>
      (\<forall>key2 salt2 r2'. deriveKeyFromPassword this crypto r1' password None = Inr ((key2, salt2), r2')
          \<longrightarrow> salt2 = map r1 [16..<32]))"
proof (intro conjI impI)
  assume a: "deriveKeyFromPassword this crypto r1 password (Some salt) = Inr ((key, salt'), r1')"
  then obtain c S where c: "crypto = Some c" "subtle c = Some S"
    using derive_with_salt_fails by blast
  from a show "salt' = salt" "r1' = r1"
    by (auto simp add: c derive_with_salt [OF c(2)] split: option.splits)
  from a show "deriveKeyFromPassword this crypto r2 password (Some salt) = Inr ((key, salt), r2)"
    by (auto simp add: c derive_with_salt [OF c(2)] split: option.splits)
next
  assume a: "deriveKeyFromPassword this crypto r1 password None = Inr ((key, salt'), r1')"
  then obtain c S where c: "crypto = Some c" "subtle c = Some S" "hasGetRandomValues c"
    using derive_without_salt_fails by blast
  from a show s: "salt' = map r1 [0..<16]" and r: "r1' = (\<lambda>i. r1 (16 + i))"
    by (auto simp add: c derive_without_salt [OF c(2,3)] split: option.splits)
  from s show "length salt' = 16" by simp
  from a show "deriveKeyFromPassword this crypto r2 password (Some salt') = Inr ((key, salt'), r2)"
    by (auto simp add: c derive_without_salt [OF c(2,3)] derive_with_salt [OF c(2)] split: option.splits)
  have "(16::nat) + 16 = 32"
    by simp
  with map_shifted [of r1 16 16]
  have "map (\<lambda>i. r1 (16 + i)) [0..<16] = map r1 [16..<32]"
    by (simp only:)
  then show "\<forall>key2 salt2 r2'. deriveKeyFromPassword this crypto r1' password None = Inr ((key2, salt2), r2')
          \<longrightarrow> salt2 = map r1 [16..<32]"
    by (auto simp add: r c derive_without_salt [OF c(2,3)] split: option.splits)
qed

lemma standin_derive:
  "importKey_PBKDF2 standin_subtle b = Some b"
  "deriveKey_PBKDF2 standin_subtle salt n h (TextEncoder_encode ''pw'') 256 = Some (derived0 salt)"
  by (simp_all add: standin_subtle_def derived0_def)

theorem derivation_deterministic_witness:
  "deriveKeyFromPassword aes0 standin_crypto rng0 ''pw'' (Some [1, 2, 3]) =
     Inr ((derived0 [1, 2, 3], [1, 2, 3]), rng0) \<and>
   deriveKeyFromPassword aes0 standin_crypto (\<lambda>i. 0) ''pw'' (Some [1, 2, 3]) =
     Inr ((derived0 [1, 2, 3], [1, 2, 3]), \<lambda>i. 0) \<and>
   deriveKeyFromPassword aes0 standin_crypto rng0 ''pw'' None =
     Inr ((derived0 (map rng0 [0..<16]), map rng0 [0..<16]), \<lambda>i. rng0 (16 + i)) \<and>
   length (map rng0 [0..<16]) = 16"
proof -
  have cfg: "keySize_aes (config_aes aes0) = 256"
    by (simp add: aes0_def AES_new_def AES_defaults_def)
  have h1: "deriveKeyFromPassword aes0 standin_crypto rng0 ''pw'' (Some [1, 2, 3]) =
     Inr ((derived0 [1, 2, 3], [1, 2, 3]), rng0)"
    unfolding standin_crypto_def
    by (simp only: derive_with_salt [OF standin_host_simps(1)] standin_derive cfg option.case)
  have h2: "deriveKeyFromPassword aes0 standin_crypto rng0 ''pw'' None =
     Inr ((derived0 (map rng0 [0..<16]), map rng0 [0..<16]), \<lambda>i. rng0 (16 + i))"
    unfolding standin_crypto_def
    by (simp only: derive_without_salt [OF standin_host_simps] standin_derive cfg option.case)
  from derivation_deterministic [of aes0 standin_crypto rng0 "''pw''" "[1, 2, 3]" "derived0 [1, 2, 3]"
      "[1, 2, 3]" rng0 "\<lambda>i. 0"] h1
  have 1: "deriveKeyFromPassword aes0 standin_crypto (\<lambda>i. 0) ''pw'' (Some [1, 2, 3]) =
     Inr ((derived0 [1, 2, 3], [1, 2, 3]), \<lambda>i. 0)"
    by blast
  from derivation_deterministic [of aes0 standin_crypto rng0 "''pw''" "[1, 2, 3]"
      "derived0 (map rng0 [0..<16])" "map rng0 [0..<16]" "\<lambda>i. rng0 (16 + i)" rng0] h2
  have 2: "length (map rng0 [0..<16]) = 16"
    by blast
  from h1 1 h2 2 show ?thesis by blast
qed

section \<open>Round trips of the three ciphers\<close>


lemma base64ToArrayBuffer_empty: "base64ToArrayBuffer [] = Inr []"
  by (simp add: base64ToArrayBuffer_def atob_def strip_padding_def)

lemma AES_encrypt_with_key:
  assumes "subtle c = Some S" and "hasGetRandomValues c"
    and "ivLength (config_aes this) \<le> 65536"
  shows "AES_encrypt this (Some c) r data (Some k) password =
     (case encrypt_AES_GCM S k (fst (getRandomValues r (ivLength (config_aes this))))
             (tagLength (config_aes this) * 8) (TextEncoder_encode data) of
        None \<Rightarrow> Inl OperationError
      | Some e \<Rightarrow>
          Inr (\<lparr>ciphertext_aes = b64_text (map unat (slice_buffer e 0 (- int (tagLength (config_aes this))))),
                iv_aes = b64_text (map unat (fst (getRandomValues r (ivLength (config_aes this))))),
                tag_aes = Some (b64_text (map unat
                   (slice_buffer e (- int (tagLength (config_aes this))) (int (length e))))),
                salt_aes = None\<rparr>,
               snd (getRandomValues r (ivLength (config_aes this)))))"
  using assms
  by (simp add: AES_encrypt_def requireSubtle_Some crypto_getRandomValues_def split_def Let_def
      arrayBufferToBase64_eq split: option.split)

lemma AES_decrypt_with_key:
  assumes "subtle c = Some S"
  shows "AES_decrypt this (Some c) r input (Some k) password =
     andThen (base64ToArrayBuffer (ciphertext_aes input)) (\<lambda>ciphertext.
     andThen (base64ToArrayBuffer (iv_aes input)) (\<lambda>iv.
     andThen (if truthy (tag_aes input) then base64ToArrayBuffer (the (tag_aes input)) else Inr [])
       (\<lambda>tag.
       (case decrypt_AES_GCM S k iv (tagLength (config_aes this) * 8) (ciphertext @ tag) of
          None \<Rightarrow> Inl DecryptionFailed
        | Some decrypted \<Rightarrow> Inr (TextDecoder_decode decrypted, r)))))"
  using assms
  by (simp add: AES_decrypt_def requireSubtle_Some Let_def)

lemma AES_decrypt_envelope:
  assumes S: "subtle c = Some S"
    and ct: "base64ToArrayBuffer (ciphertext_aes input) = Inr ct"
    and iv: "base64ToArrayBuffer (iv_aes input) = Inr iv"
    and t64: "tag_aes input = Some t64"
    and tag: "base64ToArrayBuffer t64 = Inr tag"
  shows "AES_decrypt this (Some c) r input (Some k) password =
     (case decrypt_AES_GCM S k iv (tagLength (config_aes this) * 8) (ct @ tag) of
        None \<Rightarrow> Inl DecryptionFailed
      | Some decrypted \<Rightarrow> Inr (TextDecoder_decode decrypted, r))"
proof -
  have "(if truthy (tag_aes input) then base64ToArrayBuffer (the (tag_aes input)) else Inr []) = Inr tag"
  proof (cases "t64 = []")
    case True
    with tag have "tag = []" by (simp add: base64ToArrayBuffer_empty)
    with True t64 show ?thesis by (simp add: truthy_def)
  next
    case False
    with t64 tag show ?thesis by (simp add: truthy_def)
  qed
  then show ?thesis
    by (simp only: AES_decrypt_with_key [OF S] ct iv andThen.simps)
qed









lemma standin_gcm:
  "encrypt_AES_GCM standin_subtle k iv t m =
     Some (keystream_loop m k iv @ replicate (t div 8) (standin_tag k iv m))"
  "decrypt_AES_GCM standin_subtle k iv t
     (keystream_loop m k iv @ replicate (t div 8) (standin_tag k iv m)) = Some m"
  by (simp_all add: standin_subtle_def Let_def length_keystream_loop keystream_loop_involution)





section \<open>AESEncryption: key rotation\<close>

lemma map_sum_andThen:
  "map_sum id g (andThen x f) = andThen x (\<lambda>v. map_sum id g (f v))"
  by (cases x) simp_all

lemma map_sum_decrypted:
  "map_sum id (\<lambda>p. (fst p, r)) (case x of None \<Rightarrow> Inl e | Some d \<Rightarrow> Inr (f d, r0)) =
     (case x of None \<Rightarrow> Inl e | Some d \<Rightarrow> Inr (f d, r))"
  by (cases x) simp_all

lemma AES_decrypt_rng:
  "AES_decrypt this crypto r input (Some k) password =
     map_sum id (\<lambda>p. (fst p, r)) (AES_decrypt this crypto r0 input (Some k) password)"
proof (cases crypto)
  case None
  then show ?thesis by (simp add: AES_decrypt_def requireSubtle_def)
next
  case (Some c)
  show ?thesis
  proof (cases "subtle c")
    case None
    with Some show ?thesis by (simp add: AES_decrypt_def requireSubtle_def)
  next
    case (Some S)
    with \<open>crypto = Some c\<close> show ?thesis
      by (simp add: AES_decrypt_with_key [OF Some] map_sum_andThen map_sum_decrypted)
  qed
qed

lemma AES_decrypt_ok_rng:
  "AES_decrypt this crypto r0 input (Some k) password = Inr (d, r0') \<Longrightarrow>
   AES_decrypt this crypto r input (Some k) password = Inr (d, r)"
  by (subst AES_decrypt_rng [of _ _ r _ _ _ r0]) simp

lemma AES_decrypt_fail_rng:
  "AES_decrypt this crypto r0 input (Some k) password = Inl e \<Longrightarrow>
   AES_decrypt this crypto r input (Some k) password = Inl e"
  by (subst AES_decrypt_rng [of _ _ r _ _ _ r0]) simp

lemma rotate_loop_fails:
  assumes "item \<in> set items"
    and "AES_decrypt this crypto r0 item (Some oldKey) None = Inl e"
  shows "\<exists>e'. rotate_loop this crypto oldKey newKey items acc r = Inl e'"
  using assms(1)
proof (induction items arbitrary: acc r)
  case Nil
  then show ?case by simp
next
  case (Cons x items)
  show ?case
  proof (cases "AES_decrypt this crypto r x (Some oldKey) None")
    case (Inl e1)
    then show ?thesis by simp
  next
    case (Inr p)
    then obtain d r1 where p: "AES_decrypt this crypto r x (Some oldKey) None = Inr (d, r1)"
      by (cases p) simp
    have "x \<noteq> item"
      using p AES_decrypt_fail_rng [OF assms(2), of r] by auto
    with Cons.prems have item: "item \<in> set items" by simp
    show ?thesis
    proof (cases "AES_encrypt this crypto r1 d (Some newKey) None")
      case (Inl e2)
      with p show ?thesis by simp
    next
      case (Inr q)
      then obtain env r2 where "AES_encrypt this crypto r1 d (Some newKey) None = Inr (env, r2)"
        by (cases q) simp
      with p Cons.IH [OF item, of "acc @ [env]" r2] show ?thesis by simp
    qed
  qed
qed

lemma rotate_loop_returns:
  assumes "rotate_loop this crypto oldKey newKey items acc r = Inr (out, r')"
  shows "\<exists>news. out = acc @ news \<and>
           list_all2 (\<lambda>item env. \<exists>d r1 r2.
               AES_decrypt this crypto r1 item (Some oldKey) None = Inr (d, r1) \<and>
               AES_encrypt this crypto r1 d (Some newKey) None = Inr (env, r2)) items news"
  using assms
proof (induction items arbitrary: acc r)
  case Nil
  then show ?case by simp
next
  case (Cons x items)
  from Cons.prems obtain d r1 where p: "AES_decrypt this crypto r x (Some oldKey) None = Inr (d, r1)"
    by (cases "AES_decrypt this crypto r x (Some oldKey) None") auto
  from AES_decrypt_ok_rng [OF p, of r] p have r1: "r1 = r"
    by simp
  from Cons.prems p obtain env r2 where q: "AES_encrypt this crypto r1 d (Some newKey) None = Inr (env, r2)"
    by (cases "AES_encrypt this crypto r1 d (Some newKey) None") auto
  from Cons.prems p q have "rotate_loop this crypto oldKey newKey items (acc @ [env]) r2 = Inr (out, r')"
    by simp
  from Cons.IH [OF this] obtain news where news: "out = (acc @ [env]) @ news"
    "list_all2 (\<lambda>item env. \<exists>d r1 r2.
               AES_decrypt this crypto r1 item (Some oldKey) None = Inr (d, r1) \<and>
               AES_encrypt this crypto r1 d (Some newKey) None = Inr (env, r2)) items news"
    by blast
  from p q r1 have "\<exists>d r1 r2. AES_decrypt this crypto r1 x (Some oldKey) None = Inr (d, r1) \<and>
               AES_encrypt this crypto r1 d (Some newKey) None = Inr (env, r2)"
    by blast
  with news(2) have "list_all2 (\<lambda>item env. \<exists>d r1 r2.
               AES_decrypt this crypto r1 item (Some oldKey) None = Inr (d, r1) \<and>
               AES_encrypt this crypto r1 d (Some newKey) None = Inr (env, r2)) (x # items) (env # news)"
    by simp
  moreover from news(1) have "out = acc @ env # news"
    by simp
  ultimately show ?case
    by blast
qed

lemma list_all2_decrypts:
  assumes "list_all2 (\<lambda>item env. \<exists>d r1 r2.
               AES_decrypt this crypto r1 item (Some oldKey) None = Inr (d, r1) \<and>
               AES_encrypt this crypto r1 d (Some newKey) None = Inr (env, r2)) items news"
  shows "\<forall>item\<in>set items. \<exists>d. AES_decrypt this crypto r item (Some oldKey) None = Inr (d, r)"
  using assms
proof (induction items news rule: list_all2_induct)
  case Nil
  then show ?case by simp
next
  case (Cons x xs y ys)
  from Cons.hyps(1) obtain d r1 where "AES_decrypt this crypto r1 x (Some oldKey) None = Inr (d, r1)"
    by blast
  from AES_decrypt_ok_rng [OF this, of r] Cons.IH show ?case
    by auto
qed

text \<open>C3, as the code has it. \<open>rotateKey\<close> is all or nothing: when some envelope of the batch
  fails to decrypt under the old key, the whole call throws and returns neither re-encrypted
  envelopes nor a record of failures. When the call returns, the key it returns is the one it
  generated itself at the start, every envelope of the batch decrypted under the old key, and
  the result holds, in the order of the batch, exactly one envelope for each input envelope:
  the encryption under the new key of what that input envelope decrypted to under the old
  one.\<close>

theorem rotateKey_all_or_nothing:
  "((\<exists>item\<in>set data. \<exists>r0 e. AES_decrypt this crypto r0 item (Some oldKey) None = Inl e) \<longrightarrow>
      (\<exists>e. rotateKey this crypto r oldKey data = Inl e)) \<and>
   (rotateKey this crypto r oldKey data = Inr ((newKey, out), r') \<longrightarrow>
      (\<exists>r1. AES_generateKey this crypto r = Inr (newKey, r1)) \<and>
      length out = length data \<and>
      list_all2 (\<lambda>item env. \<exists>d r1 r2.
          AES_decrypt this crypto r1 item (Some oldKey) None = Inr (d, r1) \<and>
          AES_encrypt this crypto r1 d (Some newKey) None = Inr (env, r2)) data out \<and>
      (\<forall>item\<in>set data. \<exists>d. AES_decrypt this crypto r item (Some oldKey) None = Inr (d, r)))"
proof (rule conjI; rule impI)
  assume "\<exists>item\<in>set data. \<exists>r0 e. AES_decrypt this crypto r0 item (Some oldKey) None = Inl e"
  then obtain item r0 e where item: "item \<in> set data"
    and bad: "AES_decrypt this crypto r0 item (Some oldKey) None = Inl e"
    by blast
  show "\<exists>e. rotateKey this crypto r oldKey data = Inl e"
  proof (cases "AES_generateKey this crypto r")
    case (Inl e0)
    then show ?thesis by (simp add: rotateKey_def)
  next
    case (Inr p)
    then obtain k r1 where g: "AES_generateKey this crypto r = Inr (k, r1)"
      by (cases p) simp
    from rotate_loop_fails [OF item bad, of k "[]" r1]
    obtain e' where "rotate_loop this crypto oldKey k data [] r1 = Inl e'"
      by blast
    with g show ?thesis by (simp add: rotateKey_def)
  qed
next
  assume ok: "rotateKey this crypto r oldKey data = Inr ((newKey, out), r')"
  then obtain r1 where g: "AES_generateKey this crypto r = Inr (newKey, r1)"
    and loop: "rotate_loop this crypto oldKey newKey data [] r1 = Inr (out, r')"
    by (cases "AES_generateKey this crypto r";
        cases "rotate_loop this crypto oldKey (fst (projr (AES_generateKey this crypto r))) data []
                 (snd (projr (AES_generateKey this crypto r)))")
       (auto simp add: rotateKey_def)
  from rotate_loop_returns [OF loop]
  have each: "list_all2 (\<lambda>item env. \<exists>d r1 r2.
          AES_decrypt this crypto r1 item (Some oldKey) None = Inr (d, r1) \<and>
          AES_encrypt this crypto r1 d (Some newKey) None = Inr (env, r2)) data out"
    by simp
  from each have len: "length out = length data"
    by (simp add: list_all2_lengthD)
  from g have gen: "\<exists>r1. AES_generateKey this crypto r = Inr (newKey, r1)"
    by blast
  from gen len each list_all2_decrypts [OF each, of r]
  show "(\<exists>r1. AES_generateKey this crypto r = Inr (newKey, r1)) \<and>
      length out = length data \<and>
      list_all2 (\<lambda>item env. \<exists>d r1 r2.
          AES_decrypt this crypto r1 item (Some oldKey) None = Inr (d, r1) \<and>
          AES_encrypt this crypto r1 d (Some newKey) None = Inr (env, r2)) data out \<and>
      (\<forall>item\<in>set data. \<exists>d. AES_decrypt this crypto r item (Some oldKey) None = Inr (d, r))"
    by (intro conjI)
qed

lemma aes0_config:
  "tagLength (config_aes aes0) = 16" "ivLength (config_aes aes0) = 12"
  "keySize_aes (config_aes aes0) = 256"
  by (simp_all add: aes0_def AES_new_def AES_defaults_def)

lemma standin_decrypt_item:
  assumes "base64ToArrayBuffer (ciphertext_aes input) = Inr ct"
    and "base64ToArrayBuffer (iv_aes input) = Inr iv"
    and "tag_aes input = Some t64"
    and "base64ToArrayBuffer t64 = Inr tag"
    and "decrypt_AES_GCM standin_subtle k iv 128 (ct @ tag) = x"
  shows "AES_decrypt aes0 standin_crypto r input (Some k) None =
     (case x of None \<Rightarrow> Inl DecryptionFailed | Some d \<Rightarrow> Inr (TextDecoder_decode d, r))"
  unfolding standin_crypto_def
  using AES_decrypt_envelope [OF standin_host_simps(1) assms(1-4), of aes0 r k None] assms(5)
  by (simp add: aes0_config)

lemma standin_encrypt_ok:
  "\<exists>env r'. AES_encrypt aes0 standin_crypto r d (Some k) None = Inr (env, r')"
  unfolding standin_crypto_def
  by (simp add: AES_encrypt_with_key [OF standin_host_simps] aes0_config standin_gcm(1))

lemma standin_generateKey:
  "AES_generateKey aes0 standin_crypto r =
     Inr (fst (getRandomValues r 32), snd (getRandomValues r 32))"
  by (simp add: AES_generateKey_def standin_crypto_def requireSubtle_Some [OF standin_host_simps(1)]
      aes0_config standin_subtle_def split_def Let_def)

lemma rotate_loop_first_failure:
  assumes enc: "\<And>d r. \<exists>env r'. AES_encrypt this crypto r d (Some newKey) None = Inr (env, r')"
    and bad: "AES_decrypt this crypto r0 item (Some oldKey) None = Inl e"
    and pre: "\<forall>x\<in>set pre. \<exists>d. AES_decrypt this crypto r0 x (Some oldKey) None = Inr (d, r0)"
  shows "rotate_loop this crypto oldKey newKey (pre @ item # post) acc r = Inl e"
  using pre
proof (induction pre arbitrary: acc r)
  case Nil
  then show ?case
    using AES_decrypt_fail_rng [OF bad, of r] by simp
next
  case (Cons x pre)
  then obtain d where "AES_decrypt this crypto r0 x (Some oldKey) None = Inr (d, r0)"
    by auto
  then have d: "AES_decrypt this crypto r x (Some oldKey) None = Inr (d, r)"
    by (rule AES_decrypt_ok_rng)
  from enc [of r d] obtain env r' where e: "AES_encrypt this crypto r d (Some newKey) None = Inr (env, r')"
    by blast
  from Cons.prems have "\<forall>x\<in>set pre. \<exists>d. AES_decrypt this crypto r0 x (Some oldKey) None = Inr (d, r0)"
    by simp
  from Cons.IH [OF this, of "acc @ [env]" r'] d e show ?case
    by simp
qed

lemma rotate_loop_succeeds:
  assumes enc: "\<And>d r. \<exists>env r'. AES_encrypt this crypto r d (Some newKey) None = Inr (env, r')"
    and all: "\<forall>x\<in>set items. \<exists>d. AES_decrypt this crypto r0 x (Some oldKey) None = Inr (d, r0)"
  shows "\<exists>out r'. rotate_loop this crypto oldKey newKey items acc r = Inr (out, r')"
  using all
proof (induction items arbitrary: acc r)
  case Nil
  then show ?case by simp
next
  case (Cons x items)
  then obtain d where "AES_decrypt this crypto r0 x (Some oldKey) None = Inr (d, r0)"
    by auto
  then have d: "AES_decrypt this crypto r x (Some oldKey) None = Inr (d, r)"
    by (rule AES_decrypt_ok_rng)
  from enc [of r d] obtain env r' where e: "AES_encrypt this crypto r d (Some newKey) None = Inr (env, r')"
    by blast
  from Cons.prems have "\<forall>x\<in>set items. \<exists>d. AES_decrypt this crypto r0 x (Some oldKey) None = Inr (d, r0)"
    by simp
  from Cons.IH [OF this, of "acc @ [env]" r'] d e show ?case
    by simp
qed

lemma item0_fields:
  "base64ToArrayBuffer (ciphertext_aes item0) = Inr [96, 101, 125, 125, 120]"
  "base64ToArrayBuffer (iv_aes item0) = Inr [1, 8, 15, 22, 29, 36, 43, 50, 57, 64, 71, 78]"
  "tag_aes item0 = Some ''0NDQ0NDQ0NDQ0NDQ0NDQ0A==''"
  "base64ToArrayBuffer ''0NDQ0NDQ0NDQ0NDQ0NDQ0A=='' = Inr [208, 208, 208, 208, 208, 208, 208, 208, 208, 208, 208, 208, 208, 208, 208, 208]"
  "decrypt_AES_GCM standin_subtle key32 [1, 8, 15, 22, 29, 36, 43, 50, 57, 64, 71, 78] 128
     ([96, 101, 125, 125, 120] @ [208, 208, 208, 208, 208, 208, 208, 208, 208, 208, 208, 208, 208, 208, 208, 208]) = Some (TextEncoder_encode ''alpha'')"
  by code_simp+

lemma item0_decrypt: "AES_decrypt aes0 standin_crypto r item0 (Some key32) None = Inr (''alpha'', r)"
  using standin_decrypt_item [OF item0_fields, of r] by (simp add: decode_encode_ascii)

lemma item1_fields:
  "base64ToArrayBuffer (ciphertext_aes item1) = Inr [55, 47, 0, 31, 26]"
  "base64ToArrayBuffer (iv_aes item1) = Inr [85, 92, 99, 106, 113, 120, 127, 134, 141, 148, 155, 162]"
  "tag_aes item1 = Some ''1NTU1NTU1NTU1NTU1NTU1A==''"
  "base64ToArrayBuffer ''1NTU1NTU1NTU1NTU1NTU1A=='' = Inr [212, 212, 212, 212, 212, 212, 212, 212, 212, 212, 212, 212, 212, 212, 212, 212]"
  "decrypt_AES_GCM standin_subtle key32 [85, 92, 99, 106, 113, 120, 127, 134, 141, 148, 155, 162] 128
     ([55, 47, 0, 31, 26] @ [212, 212, 212, 212, 212, 212, 212, 212, 212, 212, 212, 212, 212, 212, 212, 212]) = Some (TextEncoder_encode ''bravo'')"
  by code_simp+

lemma item1_decrypt: "AES_decrypt aes0 standin_crypto r item1 (Some key32) None = Inr (''bravo'', r)"
  using standin_decrypt_item [OF item1_fields, of r] by (simp add: decode_encode_ascii)

lemma item2_fields:
  "base64ToArrayBuffer (ciphertext_aes item2) = Inr [202, 217, 212, 207, 173, 160, 176]"
  "base64ToArrayBuffer (iv_aes item2) = Inr [169, 176, 183, 190, 197, 204, 211, 218, 225, 232, 239, 246]"
  "tag_aes item2 = Some ''goKCgoKCgoKCgoKCgoKCgg==''"
  "base64ToArrayBuffer ''goKCgoKCgoKCgoKCgoKCgg=='' = Inr [130, 130, 130, 130, 130, 130, 130, 130, 130, 130, 130, 130, 130, 130, 130, 130]"
  "decrypt_AES_GCM standin_subtle key32 [169, 176, 183, 190, 197, 204, 211, 218, 225, 232, 239, 246] 128
     ([202, 217, 212, 207, 173, 160, 176] @ [130, 130, 130, 130, 130, 130, 130, 130, 130, 130, 130, 130, 130, 130, 130, 130]) = Some (TextEncoder_encode ''charlie'')"
  by code_simp+

lemma item2_decrypt: "AES_decrypt aes0 standin_crypto r item2 (Some key32) None = Inr (''charlie'', r)"
  using standin_decrypt_item [OF item2_fields, of r] by (simp add: decode_encode_ascii)

lemma item3_fields:
  "base64ToArrayBuffer (ciphertext_aes item3) = Inr [153, 96, 101, 101, 124]"
  "base64ToArrayBuffer (iv_aes item3) = Inr [253, 4, 11, 18, 25, 32, 39, 46, 53, 60, 67, 74]"
  "tag_aes item3 = Some ''pKSkpKSkpKSkpKSkpKSkpA==''"
  "base64ToArrayBuffer ''pKSkpKSkpKSkpKSkpKSkpA=='' = Inr [164, 164, 164, 164, 164, 164, 164, 164, 164, 164, 164, 164, 164, 164, 164, 164]"
  "decrypt_AES_GCM standin_subtle key32 [253, 4, 11, 18, 25, 32, 39, 46, 53, 60, 67, 74] 128
     ([153, 96, 101, 101, 124] @ [164, 164, 164, 164, 164, 164, 164, 164, 164, 164, 164, 164, 164, 164, 164, 164]) = Some (TextEncoder_encode ''delta'')"
  by code_simp+

lemma item3_decrypt: "AES_decrypt aes0 standin_crypto r item3 (Some key32) None = Inr (''delta'', r)"
  using standin_decrypt_item [OF item3_fields, of r] by (simp add: decode_encode_ascii)

lemma item4_fields:
  "base64ToArrayBuffer (ciphertext_aes item4) = Inr [52, 58, 53, 10]"
  "base64ToArrayBuffer (iv_aes item4) = Inr [81, 88, 95, 102, 109, 116, 123, 130, 137, 144, 151, 158]"
  "tag_aes item4 = Some ''KSkpKSkpKSkpKSkpKSkpKQ==''"
  "base64ToArrayBuffer ''KSkpKSkpKSkpKSkpKSkpKQ=='' = Inr [41, 41, 41, 41, 41, 41, 41, 41, 41, 41, 41, 41, 41, 41, 41, 41]"
  "decrypt_AES_GCM standin_subtle key32 [81, 88, 95, 102, 109, 116, 123, 130, 137, 144, 151, 158] 128
     ([52, 58, 53, 10] @ [41, 41, 41, 41, 41, 41, 41, 41, 41, 41, 41, 41, 41, 41, 41, 41]) = Some (TextEncoder_encode ''echo'')"
  by code_simp+

lemma item4_decrypt: "AES_decrypt aes0 standin_crypto r item4 (Some key32) None = Inr (''echo'', r)"
  using standin_decrypt_item [OF item4_fields, of r] by (simp add: decode_encode_ascii)

lemma item2_bad_fields:
  "base64ToArrayBuffer (ciphertext_aes item2_bad) = Inr [202, 217, 212, 207, 173, 160, 176]"
  "base64ToArrayBuffer (iv_aes item2_bad) = Inr [169, 176, 183, 190, 197, 204, 211, 218, 225, 232, 239, 246]"
  "tag_aes item2_bad = Some ''g4KCgoKCgoKCgoKCgoKCgg==''"
  "base64ToArrayBuffer ''g4KCgoKCgoKCgoKCgoKCgg=='' = Inr [131, 130, 130, 130, 130, 130, 130, 130, 130, 130, 130, 130, 130, 130, 130, 130]"
  "decrypt_AES_GCM standin_subtle key32 [169, 176, 183, 190, 197, 204, 211, 218, 225, 232, 239, 246] 128
     ([202, 217, 212, 207, 173, 160, 176] @ [131, 130, 130, 130, 130, 130, 130, 130, 130, 130, 130, 130, 130, 130, 130, 130]) = None"
  by code_simp+

lemma item2_bad_decrypt: "AES_decrypt aes0 standin_crypto r item2_bad (Some key32) None = Inl DecryptionFailed"
  using standin_decrypt_item [OF item2_bad_fields, of r] by simp

lemma rotateKey_standin:
  "rotateKey aes0 standin_crypto r oldKey data =
     andThen (rotate_loop aes0 standin_crypto oldKey (fst (getRandomValues r 32)) data []
                (snd (getRandomValues r 32)))
       (\<lambda>(out, r2). Inr ((fst (getRandomValues r 32), out), r2))"
  unfolding rotateKey_def standin_generateKey andThen.simps prod.case by (rule refl)

text \<open>C3, as the claim states it, fails: of the five envelopes of \<open>batch5_corrupted\<close>
  four decrypt under the old key and the third, whose tag has one bit flipped, does not;
  \<open>rotateKey\<close> then throws the decryption error instead of returning four re-encrypted
  envelopes and one recorded failure.\<close>

theorem rotateKey_aborts_on_corrupt_envelope:
  "length batch5_corrupted = 5 \<and>
   base64ToArrayBuffer (the (tag_aes item2)) =
     Inr [130, 130, 130, 130, 130, 130, 130, 130, 130, 130, 130, 130, 130, 130, 130, 130] \<and>
   base64ToArrayBuffer (the (tag_aes item2_bad)) =
     Inr [130 XOR 1, 130, 130, 130, 130, 130, 130, 130, 130, 130, 130, 130, 130, 130, 130, 130] \<and>
   AES_decrypt aes0 standin_crypto rng0 item0 (Some key32) None = Inr (''alpha'', rng0) \<and>
   AES_decrypt aes0 standin_crypto rng0 item1 (Some key32) None = Inr (''bravo'', rng0) \<and>
   AES_decrypt aes0 standin_crypto rng0 item2_bad (Some key32) None = Inl DecryptionFailed \<and>
   AES_decrypt aes0 standin_crypto rng0 item3 (Some key32) None = Inr (''delta'', rng0) \<and>
   AES_decrypt aes0 standin_crypto rng0 item4 (Some key32) None = Inr (''echo'', rng0) \<and>
   rotateKey aes0 standin_crypto rng0 key32 batch5_corrupted = Inl DecryptionFailed"
proof -
  have tags: "base64ToArrayBuffer (the (tag_aes item2)) =
     Inr [130, 130, 130, 130, 130, 130, 130, 130, 130, 130, 130, 130, 130, 130, 130, 130]"
    "base64ToArrayBuffer (the (tag_aes item2_bad)) =
     Inr [130 XOR 1, 130, 130, 130, 130, 130, 130, 130, 130, 130, 130, 130, 130, 130, 130, 130]"
    by code_simp+
  have "rotate_loop aes0 standin_crypto key32 (fst (getRandomValues rng0 32))
          ([item0, item1] @ item2_bad # [item3, item4]) [] (snd (getRandomValues rng0 32)) =
        Inl DecryptionFailed"
    by (rule rotate_loop_first_failure [where ?r0.0 = rng0])
      (simp_all add: standin_encrypt_ok item0_decrypt item1_decrypt item2_bad_decrypt)
  moreover have "batch5_corrupted = [item0, item1] @ item2_bad # [item3, item4]"
    by (simp add: batch5_corrupted_def)
  ultimately have "rotateKey aes0 standin_crypto rng0 key32 batch5_corrupted = Inl DecryptionFailed"
    by (simp only: rotateKey_standin andThen.simps)
  with tags show ?thesis
    by (simp add: batch5_corrupted_def item0_decrypt item1_decrypt item2_bad_decrypt
        item3_decrypt item4_decrypt)
qed

theorem rotateKey_all_or_nothing_witness:
  "(\<exists>e. rotateKey aes0 standin_crypto rng0 key32 batch5_corrupted = Inl e) \<and>
   (\<exists>newKey out r'. rotateKey aes0 standin_crypto rng0 key32 batch5 = Inr ((newKey, out), r') \<and>
      newKey = fst (getRandomValues rng0 32) \<and> length out = 5 \<and>
      list_all2 (\<lambda>item env. \<exists>d r1 r2.
          AES_decrypt aes0 standin_crypto r1 item (Some key32) None = Inr (d, r1) \<and>
          AES_encrypt aes0 standin_crypto r1 d (Some newKey) None = Inr (env, r2)) batch5 out)"
proof -
  have "item2_bad \<in> set batch5_corrupted"
    by (simp add: batch5_corrupted_def)
  then have "\<exists>item\<in>set batch5_corrupted. \<exists>r0 e.
      AES_decrypt aes0 standin_crypto r0 item (Some key32) None = Inl e"
    using item2_bad_decrypt by blast
  with rotateKey_all_or_nothing [of batch5_corrupted aes0 standin_crypto key32 rng0]
  have 1: "\<exists>e. rotateKey aes0 standin_crypto rng0 key32 batch5_corrupted = Inl e"
    by blast
  have "\<exists>out r'. rotate_loop aes0 standin_crypto key32 (fst (getRandomValues rng0 32)) batch5 []
          (snd (getRandomValues rng0 32)) = Inr (out, r')"
    by (rule rotate_loop_succeeds [where ?r0.0 = rng0])
      (simp_all add: standin_encrypt_ok batch5_def item0_decrypt item1_decrypt item2_decrypt
        item3_decrypt item4_decrypt)
  then obtain out r' where "rotate_loop aes0 standin_crypto key32 (fst (getRandomValues rng0 32)) batch5 []
          (snd (getRandomValues rng0 32)) = Inr (out, r')"
    by blast
  then have ok: "rotateKey aes0 standin_crypto rng0 key32 batch5 =
      Inr ((fst (getRandomValues rng0 32), out), r')"
    by (simp only: rotateKey_standin andThen.simps prod.case)
  with rotateKey_all_or_nothing [of batch5 aes0 standin_crypto key32 rng0
      "fst (getRandomValues rng0 32)" out r']
  have 2: "length out = length batch5 \<and>
      list_all2 (\<lambda>item env. \<exists>d r1 r2.
          AES_decrypt aes0 standin_crypto r1 item (Some key32) None = Inr (d, r1) \<and>
          AES_encrypt aes0 standin_crypto r1 d (Some (fst (getRandomValues rng0 32))) None = Inr (env, r2)) batch5 out"
    by blast
  then have "length out = 5"
    by (simp add: batch5_def)
  with ok 1 2 show ?thesis by blast
qed

end
